theory Spec2Isabelle
  imports Complex_Main
begin

section \<open>JavaScript values\<close>

text \<open>
  The player clock, the schedule times and the ad durations are JavaScript numbers. They
  are modelled as real numbers: arithmetic is exact and every number is finite. The
  values that the source tests with \<open>||\<close> before using them as numbers (a field that was
  never written, \<open>null\<close>, \<open>NaN\<close>, a number) are kept apart in \<open>jsval\<close>. The number
  that \<open>parseTimeOffset\<close> reads in a string may be \<open>NaN\<close> or infinite; it has a type of
  its own, \<open>jsnumber\<close>, with the parsers.
\<close>

datatype jsval = Undefined | Null | NaN | Num real

text \<open>\<open>v || d\<close> where \<open>d\<close> is a number: \<open>undefined\<close>, \<open>null\<close>, \<open>NaN\<close> and \<open>0\<close> are falsy.\<close>

fun or_default :: "jsval \<Rightarrow> real \<Rightarrow> real" where
  "or_default (Num r) d = (if r = 0 then d else r)"
| "or_default v d = d"

text \<open>A string is falsy exactly when it is empty or absent: \<open>s || d\<close>.\<close>

fun or_string :: "string option \<Rightarrow> string \<Rightarrow> string" where
  "or_string None d = d"
| "or_string (Some s) d = (if s = [] then d else s)"

text \<open>\<open>Array.prototype.findIndex\<close>: the first position whose element passes, or \<open>-1\<close>.\<close>

fun findIndexFrom :: "('a \<Rightarrow> bool) \<Rightarrow> 'a list \<Rightarrow> int \<Rightarrow> int" where
  "findIndexFrom P [] k = - 1"
| "findIndexFrom P (x # xs) k = (if P x then k else findIndexFrom P xs (k + 1))"

definition findIndex :: "('a \<Rightarrow> bool) \<Rightarrow> 'a list \<Rightarrow> int" where
  "findIndex P xs = findIndexFrom P xs 0"

section \<open>Configuration constants (app.js, CONFIG)\<close>

definition DEFAULT_AD_DURATION :: real where
  "DEFAULT_AD_DURATION = 30"

definition DEFAULT_SKIP_OFFSET :: real where
  "DEFAULT_SKIP_OFFSET = 5"

section \<open>Ad break descriptors\<close>

text \<open>
  \<open>adTagURI\<close> of a VMAP ad source is a plain string or an object that may carry a
  \<open>uri\<close> field; \<open>extractVastUrl\<close> hands on either the string or the object itself.
\<close>

datatype jsref = Str string | Obj "string option"

text \<open>
  The object pushed by \<open>buildAdBreakList\<close>. The fields \<open>duration\<close>, \<open>skipOffset\<close> and
  \<open>clickThrough\<close> are written later by \<open>startAdBreak\<close>; the client-swap build of the
  list does not create \<open>duration\<close> and \<open>skipOffset\<close> at all (they are \<open>Undefined\<close>).
\<close>

record adbreak =
  index :: nat
  timeOffset :: string
  timeInSeconds :: real
  breakId :: string
  vastUrl :: jsref
  duration :: jsval
  skipOffset :: jsval
  clickThrough :: "jsref option"

section \<open>VMAPService: the schedule builder\<close>

subsection \<open>Strings and the host's number parsers\<close>

text \<open>
  The string that \<open>parseTimeOffset\<close> takes apart is a JavaScript string: a list of
  UTF-16 code units, here natural numbers. \<open>codeUnits\<close> gives the code units of a
  literal. The white space that \<open>trim\<close>, \<open>parseInt\<close> and \<open>parseFloat\<close> skip is the
  white space and the line terminators of the language: tab, line feed, vertical tab,
  form feed, carriage return, space, U+00A0, U+1680, U+2000 to U+200A, U+2028, U+2029,
  U+202F, U+205F, U+3000 and U+FEFF.
\<close>

type_synonym jsstring = "nat list"

definition codeUnits :: "string \<Rightarrow> jsstring" where
  "codeUnits s = map of_char s"

definition isSpace :: "nat \<Rightarrow> bool" where
  "isSpace c =
     (c \<in> {9, 10, 11, 12, 13, 32, 160, 5760, 8232, 8233, 8239, 8287, 12288, 65279}
      \<or> (8192 \<le> c \<and> c \<le> 8202))"

definition trim :: "jsstring \<Rightarrow> jsstring" where
  "trim s = rev (dropWhile isSpace (rev (dropWhile isSpace s)))"

text \<open>\<open>s.split(c)\<close> for a one-character separator; the empty string splits into one empty part.\<close>

fun splitOn :: "'a \<Rightarrow> 'a list \<Rightarrow> 'a list list" where
  "splitOn c [] = [[]]"
| "splitOn c (x # xs) =
     (if x = c then [] # splitOn c xs
      else (case splitOn c xs of w # ws \<Rightarrow> (x # w) # ws | [] \<Rightarrow> [[x]]))"

definition isDigit :: "nat \<Rightarrow> bool" where
  "isDigit c = (48 \<le> c \<and> c \<le> 57)"

definition digitsVal :: "jsstring \<Rightarrow> nat" where
  "digitsVal ds = foldl (\<lambda>a c. 10 * a + (c - 48)) 0 ds"

text \<open>An optional sign: the code units 45 (\<open>-\<close>) and 43 (\<open>+\<close>).\<close>

fun takeSign :: "jsstring \<Rightarrow> bool \<times> jsstring" where
  "takeSign [] = (False, [])"
| "takeSign (c # cs) =
     (if c = 45 then (True, cs)
      else if c = 43 then (False, cs)
      else (False, c # cs))"

text \<open>
  The numbers that the parsers and the arithmetic of \<open>parseTimeOffset\<close> can yield: a
  finite number, \<open>NaN\<close> and the two infinities. Finite numbers are reals, so rounding
  to the nearest double is not modelled (a value stays exact, also one too small for a
  double, and there is one zero); the range is: a result whose magnitude reaches
  \<open>2^1024 - 2^970\<close>, the point from which a double rounds to infinity, is an infinity
  (\<open>toNumber\<close>).
\<close>

datatype jsnumber = NotANumber | Finite real | PlusInfinity | MinusInfinity

definition overflowBound :: real where
  "overflowBound = 2 ^ 1024 - 2 ^ 970"

definition toNumber :: "real \<Rightarrow> jsnumber" where
  "toNumber x =
     (if overflowBound \<le> x then PlusInfinity
      else if x \<le> - overflowBound then MinusInfinity
      else Finite x)"

text \<open>\<open>a + b\<close> and \<open>a * b\<close> on these numbers.\<close>

fun jsAdd :: "jsnumber \<Rightarrow> jsnumber \<Rightarrow> jsnumber" where
  "jsAdd (Finite a) (Finite b) = toNumber (a + b)"
| "jsAdd NotANumber y = NotANumber"
| "jsAdd x NotANumber = NotANumber"
| "jsAdd PlusInfinity MinusInfinity = NotANumber"
| "jsAdd MinusInfinity PlusInfinity = NotANumber"
| "jsAdd PlusInfinity y = PlusInfinity"
| "jsAdd MinusInfinity y = MinusInfinity"
| "jsAdd x PlusInfinity = PlusInfinity"
| "jsAdd x MinusInfinity = MinusInfinity"

fun jsMul :: "jsnumber \<Rightarrow> jsnumber \<Rightarrow> jsnumber" where
  "jsMul (Finite a) (Finite b) = toNumber (a * b)"
| "jsMul NotANumber y = NotANumber"
| "jsMul x NotANumber = NotANumber"
| "jsMul PlusInfinity (Finite b) =
     (if b = 0 then NotANumber else if 0 < b then PlusInfinity else MinusInfinity)"
| "jsMul MinusInfinity (Finite b) =
     (if b = 0 then NotANumber else if 0 < b then MinusInfinity else PlusInfinity)"
| "jsMul (Finite a) PlusInfinity =
     (if a = 0 then NotANumber else if 0 < a then PlusInfinity else MinusInfinity)"
| "jsMul (Finite a) MinusInfinity =
     (if a = 0 then NotANumber else if 0 < a then MinusInfinity else PlusInfinity)"
| "jsMul PlusInfinity PlusInfinity = PlusInfinity"
| "jsMul MinusInfinity MinusInfinity = PlusInfinity"
| "jsMul PlusInfinity MinusInfinity = MinusInfinity"
| "jsMul MinusInfinity PlusInfinity = MinusInfinity"

text \<open>\<open>x || 0\<close> on a number: \<open>NaN\<close> and \<open>0\<close> are falsy.\<close>

definition orZero :: "jsnumber \<Rightarrow> jsnumber" where
  "orZero x = (if x = NotANumber \<or> x = Finite 0 then Finite 0 else x)"

text \<open>
  \<open>parseInt(s, 10)\<close>: leading white space, an optional sign, then the longest run of
  decimal digits; \<open>NaN\<close> when that run is empty. What follows the digits is ignored.
\<close>

definition parseInt10 :: "jsstring \<Rightarrow> jsnumber" where
  "parseInt10 s =
     (let (neg, body) = takeSign (dropWhile isSpace s);
          ds = takeWhile isDigit body
      in if ds = [] then NotANumber
         else toNumber (if neg then - real (digitsVal ds) else real (digitsVal ds)))"

text \<open>
  \<open>parseFloat(s)\<close>: leading white space, an optional sign, then the longest prefix that
  is a decimal literal: either the word \<open>Infinity\<close>, or digits with an optional fraction
  (a dot, code unit 46, and digits) and an optional exponent (\<open>e\<close> or \<open>E\<close>, code units
  101 and 69, an optional sign and digits); \<open>NaN\<close> when there is neither.
\<close>

definition exponentPart :: "jsstring \<Rightarrow> int" where
  "exponentPart r =
     (case r of
        [] \<Rightarrow> 0
      | c # cs \<Rightarrow>
          if c = 101 \<or> c = 69
          then (let (neg, body) = takeSign cs; es = takeWhile isDigit body
                in if es = [] then 0
                   else if neg then - int (digitsVal es) else int (digitsVal es))
          else 0)"

definition parseFloat :: "jsstring \<Rightarrow> jsnumber" where
  "parseFloat s =
     (let (neg, body) = takeSign (dropWhile isSpace s)
      in if take 8 body = codeUnits ''Infinity''
         then (if neg then MinusInfinity else PlusInfinity)
         else
          (let ip = takeWhile isDigit body;
               r1 = dropWhile isDigit body;
               fp = (case r1 of c # cs \<Rightarrow> if c = 46 then takeWhile isDigit cs else []
                     | [] \<Rightarrow> []);
               r2 = (case r1 of c # cs \<Rightarrow> if c = 46 then dropWhile isDigit cs else r1
                     | [] \<Rightarrow> [])
           in if ip = [] \<and> fp = [] then NotANumber
              else (let m = real (digitsVal ip) + real (digitsVal fp) / 10 ^ length fp;
                        e = exponentPart r2;
                        v = (if e \<ge> 0 then m * 10 ^ nat e else m / 10 ^ nat (- e))
                    in toNumber (if neg then - v else v))))"

text \<open>The template literal \<open>${i}\<close> for a loop counter: its decimal digits.\<close>

fun showNat :: "nat \<Rightarrow> string" where
  "showNat n =
     (if n < 10 then [char_of (48 + n)]
      else showNat (n div 10) @ [char_of (48 + n mod 10)])"

declare showNat.simps [simp del]

subsection \<open>parseTimeOffset\<close>

text \<open>
  \<open>VMAPService.parseTimeOffset(timeOffset, totalDuration)\<close>, on a string. The two
  literal tokens are compared before the string is trimmed; the parts are split at the
  colon, code unit 58.
\<close>

definition parseTimeOffset :: "jsstring \<Rightarrow> jsnumber \<Rightarrow> jsnumber" where
  "parseTimeOffset tOffset totalDuration =
     (if tOffset = codeUnits ''start'' then Finite 0
      else if tOffset = codeUnits ''end'' then totalDuration
      else (let parts = splitOn 58 (trim tOffset)
            in if length parts = 3
               then (let h = orZero (parseInt10 (parts ! 0));
                         m = orZero (parseInt10 (parts ! 1));
                         s = orZero (parseFloat (parts ! 2))
                     in jsAdd (jsAdd (jsMul h (Finite 3600)) (jsMul m (Finite 60))) s)
               else Finite 0))"

subsection \<open>extractVastUrl and buildAdBreakList\<close>

text \<open>An entry \<open>vmap.adBreaks[i]\<close> of the parsed schedule document.\<close>

record adSource =
  adTagURI :: "jsref option"

record vmapAdBreak =
  vmapTimeOffset :: "string option"
  vmapBreakId :: "string option"
  vmapAdSource :: "adSource option"

definition extractVastUrl :: "vmapAdBreak \<Rightarrow> jsref option" where
  "extractVastUrl adBreak =
     (case vmapAdSource adBreak of
        None \<Rightarrow> None
      | Some src \<Rightarrow>
          (case adTagURI src of
             None \<Rightarrow> None
           | Some (Str s) \<Rightarrow> if s = [] then None else Some (Str s)
           | Some (Obj f) \<Rightarrow>
               (case f of
                  Some u \<Rightarrow> if u \<noteq> [] then Some (Str u) else Some (Obj f)
                | None \<Rightarrow> Some (Obj f))))"

text \<open>
  The schedule times of the break descriptors are finite numbers, as all times of the
  timeline are. \<open>finitePart\<close> takes the time of a descriptor from the number that
  \<open>parseTimeOffset\<close> returns; an offset that parses to \<open>NaN\<close> or an infinity has no
  counterpart among these times and is held as 0.
\<close>

fun finitePart :: "jsnumber \<Rightarrow> real" where
  "finitePart (Finite r) = r"
| "finitePart x = 0"

text \<open>
  The body of the loop of \<open>buildAdBreakList\<close> for the entry \<open>br\<close> at counter \<open>i\<close>: the
  object it pushes, or nothing when \<open>vastUrl\<close> is \<open>null\<close>. The strings of the document
  are lists of 8-bit characters, read as their code units.
\<close>

definition makeAdBreak :: "real \<Rightarrow> nat \<Rightarrow> vmapAdBreak \<Rightarrow> adbreak option" where
  "makeAdBreak contentDuration i br =
     (let tOffset = or_string (vmapTimeOffset br) ''start'';
          seconds = parseTimeOffset (codeUnits tOffset) (Finite contentDuration)
      in case extractVastUrl br of
           None \<Rightarrow> None
         | Some url \<Rightarrow>
             Some \<lparr> index = i,
                    timeOffset = tOffset,
                    timeInSeconds = finitePart seconds,
                    breakId = or_string (vmapBreakId br) (''break_'' @ showNat i),
                    vastUrl = url,
                    duration = Num DEFAULT_AD_DURATION,
                    skipOffset = Num DEFAULT_SKIP_OFFSET,
                    clickThrough = None \<rparr>)"

function buildLoop :: "vmapAdBreak list \<Rightarrow> real \<Rightarrow> nat \<Rightarrow> adbreak list \<Rightarrow> adbreak list" where
  "buildLoop vmap contentDuration i list' =
     (if i < length vmap
      then buildLoop vmap contentDuration (Suc i)
             (case makeAdBreak contentDuration i (vmap ! i) of
                None \<Rightarrow> list'
              | Some b \<Rightarrow> list' @ [b])
      else list')"
  by pat_completeness auto
termination
  by (relation "measure (\<lambda>(vmap, contentDuration, i, list'). length vmap - i)") auto

declare buildLoop.simps [simp del]

text \<open>
  \<open>list.sort((a, b) => a.timeInSeconds - b.timeInSeconds)\<close>: the sort of the host is
  stable, as \<open>sort_key\<close> is.
\<close>

definition buildAdBreakList :: "vmapAdBreak list \<Rightarrow> real \<Rightarrow> adbreak list" where
  "buildAdBreakList vmap contentDuration =
     sort_key timeInSeconds (buildLoop vmap contentDuration 0 [])"

text \<open>
  The client-swap source has the same function; the objects it pushes have no \<open>duration\<close>
  and no \<open>skipOffset\<close> field.
\<close>

definition clientBuildAdBreakList :: "vmapAdBreak list \<Rightarrow> real \<Rightarrow> adbreak list" where
  "clientBuildAdBreakList vmap contentDurationSec =
     map (\<lambda>b. b\<lparr>duration := Undefined, skipOffset := Undefined\<rparr>)
       (buildAdBreakList vmap contentDurationSec)"

section \<open>VAST responses and the metadata resolver\<close>

text \<open>
  What the source reads of a parsed VAST response: the ads, their creatives, and of a
  creative its type, media files, declared duration, skip delay and click-through
  templates. A field that may be missing is an option; the two numbers are \<open>jsval\<close>.
\<close>

record mediaFile =
  fileURL :: "string option"

record creative =
  creativeType :: string
  mediaFiles :: "mediaFile list option"
  creativeDuration :: jsval
  skipDelay :: jsval
  videoClickThroughURLTemplate :: "jsref option"
  videoClicks :: "jsref option option"

record ad =
  creatives :: "creative list option"
  adVideoClickThroughURLTemplate :: "jsref option"

text \<open>
  \<open>vastResponse.ads.find(a => a.creatives && a.creatives.length)\<close>,
  \<open>getLinearCreative\<close> and \<open>getMediaFileUrl\<close>.
\<close>

definition hasCreatives :: "ad \<Rightarrow> bool" where
  "hasCreatives a = (case creatives a of None \<Rightarrow> False | Some cs \<Rightarrow> length cs \<noteq> 0)"

definition isPlayableLinear :: "creative \<Rightarrow> bool" where
  "isPlayableLinear c =
     (creativeType c = ''linear'' \<and>
      (case mediaFiles c of None \<Rightarrow> False | Some fs \<Rightarrow> length fs \<noteq> 0))"

definition getLinearCreative :: "ad \<Rightarrow> creative option" where
  "getLinearCreative a =
     (case creatives a of None \<Rightarrow> None | Some cs \<Rightarrow> List.find isPlayableLinear cs)"

definition hasFileURL :: "mediaFile \<Rightarrow> bool" where
  "hasFileURL f = (case fileURL f of None \<Rightarrow> False | Some u \<Rightarrow> u \<noteq> [])"

definition getMediaFileUrl :: "creative \<Rightarrow> string option" where
  "getMediaFileUrl c =
     (case mediaFiles c of
        None \<Rightarrow> None
      | Some fs \<Rightarrow>
          if length fs = 0 then None
          else (case List.find hasFileURL fs of None \<Rightarrow> None | Some f \<Rightarrow> fileURL f))"

text \<open>\<open>t.url || t\<close> for a template \<open>t\<close> that is present: a string has no \<open>url\<close>.\<close>

fun urlOrSelf :: "jsref \<Rightarrow> jsref option" where
  "urlOrSelf (Str s) = (if s = [] then None else Some (Str s))"
| "urlOrSelf (Obj None) = Some (Obj None)"
| "urlOrSelf (Obj (Some u)) = (if u = [] then Some (Obj (Some u)) else Some (Str u))"

subsection \<open>AdTracker.initialize (stream-relative build)\<close>

record metadata =
  mdClickThrough :: "jsref option"
  mdDuration :: real
  mdSkipOffset :: real

text \<open>The object literal \<open>metadata\<close> that \<open>initialize\<close> builds from the creative it chose.\<close>

definition extractMetadata :: "creative \<Rightarrow> metadata" where
  "extractMetadata c =
     \<lparr> mdClickThrough =
         (case videoClickThroughURLTemplate c of None \<Rightarrow> None | Some t \<Rightarrow> urlOrSelf t),
       mdDuration = or_default (creativeDuration c) DEFAULT_AD_DURATION,
       mdSkipOffset = or_default (skipDelay c) DEFAULT_SKIP_OFFSET \<rparr>"

text \<open>
  The outcome of \<open>vastClient.get\<close>: the promise is rejected or resolves to a response.
  \<open>initialize\<close> returns \<open>null\<close> (here \<open>None\<close>) without a URL, on a rejected fetch
  (the \<open>catch\<close>), without an ad that has creatives, and without a playable linear
  creative. The VAST tracking session that it opens on success is internal to the tracker
  and stays outside the model.
\<close>

datatype 'a fetched = Rejected | Resolved 'a

definition initialize :: "adbreak \<Rightarrow> ad list fetched \<Rightarrow> metadata option" where
  "initialize breakInfo response =
     (if vastUrl breakInfo = Str [] then None
      else (case response of
              Rejected \<Rightarrow> None
            | Resolved ads \<Rightarrow>
                (case List.find hasCreatives ads of
                   None \<Rightarrow> None
                 | Some validAd \<Rightarrow>
                     (case getLinearCreative validAd of
                        None \<Rightarrow> None
                      | Some c \<Rightarrow> Some (extractMetadata c)))))"

subsection \<open>triggerAdBreak (client-swap build): the ad properties\<close>

text \<open>
  \<open>creative.duration > 0\<close>, \<open>creative.skipDelay != null\<close> and \<open>creative.skipDelay >= 0\<close>
  on a \<open>jsval\<close>: in a comparison \<open>undefined\<close> and \<open>NaN\<close> compare false and \<open>null\<close>
  counts as \<open>0\<close>.
\<close>

fun jsGreater0 :: "jsval \<Rightarrow> bool" where
  "jsGreater0 (Num r) = (r > 0)"
| "jsGreater0 v = False"

fun jsNotNull :: "jsval \<Rightarrow> bool" where
  "jsNotNull Undefined = False"
| "jsNotNull Null = False"
| "jsNotNull v = True"

fun jsAtLeast0 :: "jsval \<Rightarrow> bool" where
  "jsAtLeast0 (Num r) = (r \<ge> 0)"
| "jsAtLeast0 Null = True"
| "jsAtLeast0 v = False"

fun numberOf :: "jsval \<Rightarrow> real" where
  "numberOf (Num r) = r"
| "numberOf v = 0"

text \<open>
  \<open>const duration = creative.duration > 0 ? creative.duration : 15\<close> and
  \<open>const skipOffset = creative.skipDelay != null && creative.skipDelay >= 0 ?
  creative.skipDelay : 5\<close>. Where \<open>numberOf\<close> is applied the value is a number.
\<close>

definition triggerDuration :: "creative \<Rightarrow> real" where
  "triggerDuration c =
     (if jsGreater0 (creativeDuration c) then numberOf (creativeDuration c) else 15)"

definition triggerSkipOffset :: "creative \<Rightarrow> jsval" where
  "triggerSkipOffset c =
     (if jsNotNull (skipDelay c) \<and> jsAtLeast0 (skipDelay c) then skipDelay c else Num 5)"

text \<open>
  The click-through lookup of \<open>triggerAdBreak\<close>: the creative's template, else the ad's,
  else the one of \<open>creative.videoClicks\<close>; a template counts when it is truthy.
\<close>

definition truthyRef :: "jsref option \<Rightarrow> bool" where
  "truthyRef t = (t \<noteq> None \<and> t \<noteq> Some (Str []))"

definition triggerClickThrough :: "ad \<Rightarrow> creative \<Rightarrow> jsref option" where
  "triggerClickThrough validAd c =
     (if truthyRef (videoClickThroughURLTemplate c)
      then Option.bind (videoClickThroughURLTemplate c) urlOrSelf
      else if truthyRef (adVideoClickThroughURLTemplate validAd)
      then Option.bind (adVideoClickThroughURLTemplate validAd) urlOrSelf
      else (case videoClicks c of
              None \<Rightarrow> None
            | Some t \<Rightarrow> if truthyRef t then Option.bind t urlOrSelf else None))"

section \<open>AdBreakManager: timeline arithmetic\<close>

text \<open>\<open>br.duration || CONFIG.DEFAULT_AD_DURATION\<close>, as every reader of the field writes it.\<close>

definition adDuration :: "adbreak \<Rightarrow> real" where
  "adDuration br = or_default (duration br) DEFAULT_AD_DURATION"

text \<open>
  \<open>getCumulativeAdDuration(upToIndex)\<close>: the loop
  \<open>for (let i = 0; i < upToIndex && i < this.adBreaks.length; i++) total += ...\<close>
  with its counter \<open>i\<close> and its accumulator \<open>total\<close> (here \<open>total'\<close>). \<open>upToIndex\<close> is
  an integer: the callers pass the result of \<open>findIndex\<close>, which is \<open>-1\<close> when nothing
  is found.
\<close>

function cumulativeLoop :: "adbreak list \<Rightarrow> int \<Rightarrow> nat \<Rightarrow> real \<Rightarrow> real" where
  "cumulativeLoop bs upToIndex i total' =
     (if int i < upToIndex \<and> i < length bs
      then cumulativeLoop bs upToIndex (Suc i) (total' + adDuration (bs ! i))
      else total')"
  by pat_completeness auto
termination
  by (relation "measure (\<lambda>(bs, upToIndex, i, total'). length bs - i)") auto

declare cumulativeLoop.simps [simp del]

definition getCumulativeAdDuration :: "adbreak list \<Rightarrow> int \<Rightarrow> real" where
  "getCumulativeAdDuration bs upToIndex = cumulativeLoop bs upToIndex 0 0"

text \<open>
  The callback of \<open>find\<close> in \<open>detectActiveBreak\<close>, for the element at position
  \<open>index\<close> (here \<open>idx\<close>) of \<open>this.adBreaks\<close> (here \<open>bs\<close>): the shifted start, the
  end, and the comparison \<open>hlsTime >= startTime && hlsTime < endTime\<close>.
\<close>

definition breakStartTime :: "adbreak list \<Rightarrow> nat \<Rightarrow> real" where
  "breakStartTime bs idx =
     timeInSeconds (bs ! idx) + getCumulativeAdDuration bs (int idx)"

definition breakEndTime :: "adbreak list \<Rightarrow> nat \<Rightarrow> real" where
  "breakEndTime bs idx = breakStartTime bs idx + adDuration (bs ! idx)"

definition inBreakWindow :: "adbreak list \<Rightarrow> real \<Rightarrow> nat \<Rightarrow> bool" where
  "inBreakWindow bs hlsTime idx =
     (hlsTime \<ge> breakStartTime bs idx \<and> hlsTime < breakEndTime bs idx)"

text \<open>
  \<open>detectActiveBreak(hlsTime)\<close>: \<open>find\<close> visits the positions in order and returns the
  first element whose callback holds, \<open>undefined\<close> (here \<open>None\<close>) when there is none. The
  position found identifies the object returned.
\<close>

definition detectActiveIndex :: "adbreak list \<Rightarrow> real \<Rightarrow> nat option" where
  "detectActiveIndex bs hlsTime =
     List.find (inBreakWindow bs hlsTime) [0 ..< length bs]"


section \<open>AdBreakManager: the state machine\<close>

text \<open>
  \<open>currentAdBreak\<close> is a reference to one of the objects that \<open>adBreaks\<close> holds, and
  \<open>startAdBreak\<close> writes through both. The objects therefore live in a store, addressed
  by references; the array and \<open>currentAdBreak\<close> hold references. The overlay
  controller, the tracker and the player are reached only through method calls, which
  the model records in order.
\<close>

type_synonym ref = nat

datatype call =
    OverlayShow
  | OverlayHide
  | OverlayUpdateSkipButton real real real
  | TrackerInitialize ref
  | TrackerSetProgress real
  | TrackerTrackSkip
  | TrackerTrackComplete
  | TrackerReset
  | PlayerCurrentTime real

record manager =
  store :: "ref \<Rightarrow> adbreak"
  adBreaks :: "ref list"
  currentAdBreak :: "ref option"
  isInAdBreak :: bool
  calls :: "call list"

text \<open>The array \<open>this.adBreaks\<close> as the arithmetic reads it: the objects behind the references.\<close>

definition breaksOf :: "manager \<Rightarrow> adbreak list" where
  "breaksOf s = map (store s) (adBreaks s)"

text \<open>The constructor, for a given content of the object store.\<close>

definition newManager :: "(ref \<Rightarrow> adbreak) \<Rightarrow> manager" where
  "newManager objects =
     \<lparr> store = objects, adBreaks = [], currentAdBreak = None, isInAdBreak = False,
       calls = [] \<rparr>"

definition setAdBreaks :: "manager \<Rightarrow> ref list \<Rightarrow> manager" where
  "setAdBreaks s newBreaks = s\<lparr>adBreaks := newBreaks\<rparr>"

text \<open>
  \<open>startAdBreak\<close> is an \<open>async\<close> function. \<open>startAdBreak\<close> below is what runs when it
  is called, up to the \<open>await\<close>; \<open>startAdBreakResume\<close> is what runs when the promise
  of \<open>tracker.initialize\<close> has settled with \<open>metadata\<close>, in whatever state the manager
  then is. Writing a field of \<open>this.currentAdBreak\<close> while that is \<open>null\<close> throws.
\<close>

definition startAdBreak :: "manager \<Rightarrow> ref \<Rightarrow> manager" where
  "startAdBreak s breakInfo =
     s\<lparr> isInAdBreak := True,
        currentAdBreak := Some breakInfo,
        calls := calls s @ [OverlayShow, TrackerInitialize breakInfo] \<rparr>"

datatype error = TypeError

definition startAdBreakResume :: "manager \<Rightarrow> ref \<Rightarrow> metadata option \<Rightarrow> error + manager" where
  "startAdBreakResume s breakInfo md =
     (case md of
        None \<Rightarrow> Inr s
      | Some m \<Rightarrow>
          (case currentAdBreak s of
             None \<Rightarrow> Inl TypeError
           | Some cur \<Rightarrow>
               (let st1 = (store s)
                      (cur := (store s cur)
                         \<lparr> duration := Num (mdDuration m),
                           skipOffset := Num (mdSkipOffset m),
                           clickThrough := mdClickThrough m \<rparr>);
                    breakIndex =
                      findIndex (\<lambda>b. breakId b = breakId (st1 breakInfo)) (map st1 (adBreaks s))
                in if breakIndex \<noteq> - 1
                   then (let target = adBreaks s ! nat breakIndex
                         in Inr (s\<lparr>store := st1
                                  (target := (st1 target)
                                     \<lparr> duration := Num (mdDuration m),
                                       skipOffset := Num (mdSkipOffset m) \<rparr>)\<rparr>))
                   else Inr (s\<lparr>store := st1\<rparr>))))"

definition endAdBreak :: "manager \<Rightarrow> manager" where
  "endAdBreak s =
     s\<lparr> isInAdBreak := False,
        currentAdBreak := None,
        calls := calls s @ [TrackerTrackComplete, TrackerReset, OverlayHide] \<rparr>"

definition updateProgress :: "manager \<Rightarrow> real \<Rightarrow> manager" where
  "updateProgress s elapsed =
     (case currentAdBreak s of
        None \<Rightarrow> s
      | Some cur \<Rightarrow>
          (let duration' = or_default (duration (store s cur)) DEFAULT_AD_DURATION;
               skipOffset' = or_default (skipOffset (store s cur)) DEFAULT_SKIP_OFFSET
           in s\<lparr>calls := calls s @
                  [OverlayUpdateSkipButton elapsed duration' skipOffset',
                   TrackerSetProgress elapsed]\<rparr>))"

text \<open>
  \<open>update(hlsTime)\<close>. The three branches of the source are: a break detected while not in
  one; none detected while in one; a break detected while in one and \<open>currentAdBreak\<close> set.
\<close>

definition update :: "manager \<Rightarrow> real \<Rightarrow> manager" where
  "update s hlsTime =
     (if length (adBreaks s) = 0 then s
      else (case detectActiveIndex (breaksOf s) hlsTime of
              Some i \<Rightarrow>
                if \<not> isInAdBreak s then startAdBreak s (adBreaks s ! i)
                else (case currentAdBreak s of
                        None \<Rightarrow> s
                      | Some cur \<Rightarrow>
                          (let breakIndex =
                                 findIndex (\<lambda>b. breakId b = breakId (store s cur)) (breaksOf s);
                               cumulativeAdDuration =
                                 getCumulativeAdDuration (breaksOf s) breakIndex;
                               adjustedStartTime =
                                 timeInSeconds (store s cur) + cumulativeAdDuration;
                               elapsed = hlsTime - adjustedStartTime
                           in updateProgress s elapsed))
            | None \<Rightarrow> if isInAdBreak s then endAdBreak s else s))"

text \<open>\<open>skipCurrentAd(player)\<close>; \<open>player\<close> tells whether a player instance was passed.\<close>

definition skipCurrentAd :: "manager \<Rightarrow> bool \<Rightarrow> manager" where
  "skipCurrentAd s player =
     (case currentAdBreak s of
        None \<Rightarrow> s
      | Some cur \<Rightarrow>
          if \<not> player then s
          else (let breakIndex =
                      findIndex (\<lambda>b. breakId b = breakId (store s cur)) (breaksOf s);
                    cumulativeAdDuration = getCumulativeAdDuration (breaksOf s) breakIndex;
                    adDuration' = or_default (duration (store s cur)) DEFAULT_AD_DURATION;
                    endTime = timeInSeconds (store s cur) + cumulativeAdDuration + adDuration'
                in s\<lparr>calls := calls s @ [TrackerTrackSkip, PlayerCurrentTime endTime]\<rparr>))"

definition reset :: "manager \<Rightarrow> manager" where
  "reset s =
     s\<lparr> adBreaks := [],
        currentAdBreak := None,
        isInAdBreak := False,
        calls := calls s @ [TrackerReset] \<rparr>"

text \<open>
  The operations of the manager as events of one run. A continuation that throws rejects
  the promise of \<open>startAdBreak\<close>, which nobody awaits; it has written nothing.
\<close>

datatype operation =
    SetAdBreaks "ref list"
  | Update real
  | StartAdBreak ref
  | StartAdBreakResume ref "metadata option"
  | EndAdBreak
  | UpdateProgress real
  | SkipCurrentAd bool
  | Reset

fun perform :: "manager \<Rightarrow> operation \<Rightarrow> manager" where
  "perform s (SetAdBreaks newBreaks) = setAdBreaks s newBreaks"
| "perform s (Update hlsTime) = update s hlsTime"
| "perform s (StartAdBreak breakInfo) = startAdBreak s breakInfo"
| "perform s (StartAdBreakResume breakInfo md) =
     (case startAdBreakResume s breakInfo md of Inl e \<Rightarrow> s | Inr s' \<Rightarrow> s')"
| "perform s EndAdBreak = endAdBreak s"
| "perform s (UpdateProgress elapsed) = updateProgress s elapsed"
| "perform s (SkipCurrentAd player) = skipCurrentAd s player"
| "perform s Reset = reset s"

definition runOps :: "manager \<Rightarrow> operation list \<Rightarrow> manager" where
  "runOps s ops = foldl perform s ops"


section \<open>The transitional build: initializeAdTracking\<close>

text \<open>
  The function-based stream-relative build keeps the same state in globals. There the
  continuation of \<open>initializeAdTracking\<close>, run when \<open>vastClient.get\<close> has resolved with a
  playable linear creative \<open>c\<close>, writes to \<open>currentAdBreak\<close> inside a \<open>try\<close> block whose
  \<open>catch\<close> only logs: with \<open>currentAdBreak\<close> \<open>null\<close> the first write throws and nothing
  is written.
\<close>

definition initializeAdTrackingResume :: "manager \<Rightarrow> ref \<Rightarrow> creative \<Rightarrow> manager" where
  "initializeAdTrackingResume s breakInfo c =
     (case currentAdBreak s of
        None \<Rightarrow> s
      | Some cur \<Rightarrow>
          (let st0 = (if truthyRef (videoClickThroughURLTemplate c)
                      then (store s)
                             (cur := (store s cur)
                                \<lparr>clickThrough :=
                                   Option.bind (videoClickThroughURLTemplate c) urlOrSelf\<rparr>)
                      else store s);
               st1 = st0
                 (cur := (st0 cur)
                    \<lparr> duration := Num (or_default (creativeDuration c) 30),
                      skipOffset := Num (or_default (skipDelay c) 5) \<rparr>);
               breakIndex =
                 findIndex (\<lambda>b. breakId b = breakId (st1 breakInfo)) (map st1 (adBreaks s))
           in if breakIndex \<noteq> - 1
              then (let target = adBreaks s ! nat breakIndex
                    in s\<lparr>store := st1
                          (target := (st1 target)
                             \<lparr> duration := duration (st1 cur),
                               skipOffset := skipOffset (st1 cur) \<rparr>)\<rparr>)
              else s\<lparr>store := st1\<rparr>))"

section \<open>The client-swap build: content-relative triggering\<close>

definition AD_TRIGGER_TOLERANCE :: real where
  "AD_TRIGGER_TOLERANCE = 0.5"

text \<open>The object \<open>currentAd\<close> of an ad that is playing.\<close>

record adSession =
  sessionBreakInfo :: adbreak
  sessionDuration :: real
  sessionSkipOffset :: jsval
  sessionClickThrough :: "jsref option"
  sessionMediaUrl :: string
  startContentTime :: real

text \<open>
  The globals of the client-swap build, and of the player what the handlers read:
  \<open>playerSource\<close> is the \<open>src\<close> of \<open>player.currentSource()\<close>, \<open>contentListening\<close>
  tells whether \<open>handleContentTimeUpdate\<close> is registered for \<open>timeupdate\<close>. \<open>triggers\<close>
  records, in order, the position in \<open>adBreaks\<close> of every break for which
  \<open>triggerAdBreak\<close> went on to fetch the VAST document.
\<close>

record client =
  clientAdBreaks :: "adbreak list"
  clientContentDuration :: real
  contentSource :: "string option"
  currentAd :: "adSession option"
  lastTriggeredBreakIndex :: int
  playerSource :: "string option"
  contentListening :: bool
  triggers :: "nat list"

text \<open>
  The loop of \<open>handleContentTimeUpdate\<close> from counter \<open>i\<close> for the clock sample \<open>t\<close>:
  the position of the break it calls \<open>triggerAdBreak\<close> for, if any.
\<close>

function dueLoop :: "client \<Rightarrow> real \<Rightarrow> nat \<Rightarrow> nat option" where
  "dueLoop s t i =
     (if i < length (clientAdBreaks s)
      then (let br = clientAdBreaks s ! i
            in if lastTriggeredBreakIndex s = int i then dueLoop s t (Suc i)
               else if timeInSeconds br \<le> 0
               then (if t < AD_TRIGGER_TOLERANCE then Some i else dueLoop s t (Suc i))
               else if timeInSeconds br \<ge> clientContentDuration s - AD_TRIGGER_TOLERANCE
               then (if t \<ge> clientContentDuration s - AD_TRIGGER_TOLERANCE then Some i
                     else dueLoop s t (Suc i))
               else if \<bar>t - timeInSeconds br\<bar> \<le> AD_TRIGGER_TOLERANCE then Some i
               else dueLoop s t (Suc i))
      else None)"
  by pat_completeness auto
termination
  by (relation "measure (\<lambda>(s, t, i). length (clientAdBreaks s) - i)") auto

declare dueLoop.simps [simp del]

text \<open>
  \<open>triggerAdBreak(breakInfo)\<close> up to the call of \<open>vastClient.get\<close>, for the break at
  position \<open>i\<close> of \<open>adBreaks\<close>.
\<close>

definition triggerAdBreak :: "client \<Rightarrow> nat \<Rightarrow> client" where
  "triggerAdBreak s i =
     (if currentAd s \<noteq> None then s
      else s\<lparr> lastTriggeredBreakIndex := int (index (clientAdBreaks s ! i)),
              triggers := triggers s @ [i] \<rparr>)"

definition handleContentTimeUpdate :: "client \<Rightarrow> real \<Rightarrow> client" where
  "handleContentTimeUpdate s t =
     (if currentAd s \<noteq> None then s
      else if contentSource s = None \<or> playerSource s \<noteq> contentSource s then s
      else (case dueLoop s t 0 of None \<Rightarrow> s | Some i \<Rightarrow> triggerAdBreak s i))"

text \<open>
  The \<open>then\<close> callback of the fetch, for the break object \<open>breakInfo\<close> that the call
  captured: without a playable creative it returns; otherwise the ad becomes
  \<open>currentAd\<close>, the content listener is removed and the player switches to the ad.
\<close>

definition vastResolved :: "client \<Rightarrow> adbreak \<Rightarrow> ad list \<Rightarrow> client" where
  "vastResolved s breakInfo ads =
     (case List.find hasCreatives ads of
        None \<Rightarrow> s
      | Some validAd \<Rightarrow>
          (case getLinearCreative validAd of
             None \<Rightarrow> s
           | Some c \<Rightarrow>
               (case getMediaFileUrl c of
                  None \<Rightarrow> s
                | Some url \<Rightarrow>
                    s\<lparr> currentAd := Some
                         \<lparr> sessionBreakInfo = breakInfo,
                           sessionDuration = triggerDuration c,
                           sessionSkipOffset = triggerSkipOffset c,
                           sessionClickThrough = triggerClickThrough validAd c,
                           sessionMediaUrl = url,
                           startContentTime = timeInSeconds breakInfo \<rparr>,
                       contentListening := False,
                       contentSource := playerSource s,
                       playerSource := Some url \<rparr>)))"

text \<open>The \<open>catch\<close> callback of the fetch.\<close>

definition vastRejected :: "client \<Rightarrow> client" where
  "vastRejected s = s\<lparr>lastTriggeredBreakIndex := - 1\<rparr>"

text \<open>
  \<open>cleanupAdAndResume\<close> with \<open>seekContentPastAd\<close> up to \<open>player.src(contentSource)\<close>;
  the ad's end, the ad clock reaching the duration, and the skip button all come here.
\<close>

definition cleanupAdAndResume :: "client \<Rightarrow> client" where
  "cleanupAdAndResume s =
     (case currentAd s of
        None \<Rightarrow> s
      | Some a \<Rightarrow>
          (if contentSource s = None then s\<lparr>currentAd := None\<rparr>
           else s\<lparr>currentAd := None, playerSource := contentSource s\<rparr>))"

definition onAdTimeUpdate :: "client \<Rightarrow> real \<Rightarrow> client" where
  "onAdTimeUpdate s elapsed =
     (case currentAd s of
        None \<Rightarrow> s
      | Some a \<Rightarrow> if elapsed \<ge> sessionDuration a then cleanupAdAndResume s else s)"

text \<open>
  The events of a client-swap session: a \<open>timeupdate\<close> of the content with the clock at
  \<open>t\<close>, the two outcomes of a VAST fetch, a \<open>timeupdate\<close> of the ad, the ad's \<open>ended\<close>
  event, the skip button, and the content having resumed after the ad (which registers
  \<open>handleContentTimeUpdate\<close> again).
\<close>

datatype event =
    ContentTimeUpdate real
  | VastResolved adbreak "ad list"
  | VastRejected
  | AdTimeUpdate real
  | AdEnded
  | SkipAd
  | ContentResumed

fun step :: "client \<Rightarrow> event \<Rightarrow> client" where
  "step s (ContentTimeUpdate t) = (if contentListening s then handleContentTimeUpdate s t else s)"
| "step s (VastResolved breakInfo ads) = vastResolved s breakInfo ads"
| "step s VastRejected = vastRejected s"
| "step s (AdTimeUpdate elapsed) = onAdTimeUpdate s elapsed"
| "step s AdEnded = cleanupAdAndResume s"
| "step s SkipAd = cleanupAdAndResume s"
| "step s ContentResumed = s\<lparr>contentListening := True\<rparr>"

definition runEvents :: "client \<Rightarrow> event list \<Rightarrow> client" where
  "runEvents s evs = foldl step s evs"

text \<open>
  The state in which \<open>loadVideoAndVMAP\<close> leaves the globals once the schedule has
  arrived: nothing triggered, no ad, the content playing from \<open>contentUrl\<close>.
\<close>

definition loaded :: "adbreak list \<Rightarrow> real \<Rightarrow> string \<Rightarrow> client" where
  "loaded breaks contentDurationSec contentUrl =
     \<lparr> clientAdBreaks = breaks,
       clientContentDuration = contentDurationSec,
       contentSource = Some contentUrl,
       currentAd = None,
       lastTriggeredBreakIndex = - 1,
       playerSource = Some contentUrl,
       contentListening = True,
       triggers = [] \<rparr>"

section \<open>Example schedules\<close>

text \<open>
  A break object as \<open>buildAdBreakList\<close> pushes it for the entry at document position \<open>i\<close>
  that gives no \<open>breakId\<close>, with the time \<open>t\<close> and the \<open>duration\<close> field \<open>d\<close>.
\<close>

definition exampleBreak :: "nat \<Rightarrow> real \<Rightarrow> jsval \<Rightarrow> adbreak" where
  "exampleBreak i t d =
     \<lparr> index = i, timeOffset = ''00:00:00'', timeInSeconds = t,
       breakId = ''break_'' @ showNat i, vastUrl = Str ''https://ads.example/vast'',
       duration = d, skipOffset = Num DEFAULT_SKIP_OFFSET, clickThrough = None \<rparr>"

text \<open>
  An object store for the examples: the reference \<open>r\<close> holds the break of document
  position \<open>r\<close>, scheduled at \<open>300 * r\<close> seconds, with the default duration. The
  references 0 and 1 are a pre-roll and a mid-roll declared at 300.
\<close>

definition exampleObjects :: "ref \<Rightarrow> adbreak" where
  "exampleObjects r = exampleBreak r (300 * real r) (Num DEFAULT_AD_DURATION)"

text \<open>Metadata of a fifteen-second ad that may be skipped after three seconds.\<close>

definition exampleMetadata :: metadata where
  "exampleMetadata =
     \<lparr> mdClickThrough = Some (Str ''https://ads.example/landing''),
       mdDuration = 15, mdSkipOffset = 3 \<rparr>"

text \<open>
  The manager over the example store at three moments of one playback: when the clock
  has gone through the pre-roll and entered the mid-roll, when it has left the pre-roll
  and not yet reached the mid-roll, and when it has just entered the pre-roll.
\<close>

definition midrollActive :: manager where
  "midrollActive =
     runOps (newManager exampleObjects) [SetAdBreaks [0, 1], Update 5, Update 100, Update 340]"

definition betweenBreaks :: manager where
  "betweenBreaks =
     runOps (newManager exampleObjects) [SetAdBreaks [0, 1], Update 5, Update 100]"

definition prerollActive :: manager where
  "prerollActive = runOps (newManager exampleObjects) [SetAdBreaks [0, 1], Update 5]"

text \<open>
  The same schedule with every duration resolved to 0, and the manager after the clock
  sample 5 on it.
\<close>

definition zeroDurationObjects :: "ref \<Rightarrow> adbreak" where
  "zeroDurationObjects r = exampleBreak r (300 * real r) (Num 0)"

definition zeroDurationActive :: manager where
  "zeroDurationActive = runOps (newManager zeroDurationObjects) [SetAdBreaks [0, 1], Update 5]"

text \<open>
  A VAST response with one ad whose linear creative is playable, declares a duration of
  20 seconds and a skip delay of 0; the client-swap schedule with a pre-roll and a
  mid-roll at 300 seconds of a content of 596 seconds.
\<close>

definition exampleCreative :: creative where
  "exampleCreative =
     \<lparr> creativeType = ''linear'',
       mediaFiles = Some [\<lparr> fileURL = Some ''https://ads.example/ad.mp4'' \<rparr>],
       creativeDuration = Num 20,
       skipDelay = Num 0,
       videoClickThroughURLTemplate = Some (Obj (Some ''https://ads.example/landing'')),
       videoClicks = None \<rparr>"

definition exampleAds :: "ad list" where
  "exampleAds = [\<lparr> creatives = Some [exampleCreative], adVideoClickThroughURLTemplate = None \<rparr>]"

definition exampleClient :: client where
  "exampleClient =
     loaded [exampleBreak 0 0 Undefined, exampleBreak 1 300 Undefined] 596
       ''https://cdn.example/content.mp4''"

text \<open>
  Entries of a schedule document: one without an ad source, which \<open>buildAdBreakList\<close>
  discards, and one with an ad tag URI and the time offset \<open>tOffset\<close>; neither carries a
  \<open>breakId\<close>.
\<close>

definition discardedEntry :: vmapAdBreak where
  "discardedEntry =
     \<lparr> vmapTimeOffset = Some ''start'', vmapBreakId = None, vmapAdSource = None \<rparr>"

definition keptEntry :: "string \<Rightarrow> vmapAdBreak" where
  "keptEntry tOffset =
     \<lparr> vmapTimeOffset = Some tOffset, vmapBreakId = None,
       vmapAdSource = Some \<lparr> adTagURI = Some (Str ''https://ads.example/vast'') \<rparr> \<rparr>"

text \<open>
  The mid-roll of the example active and its metadata arrived: a duration of 15 seconds.
\<close>

definition midrollResolved :: manager where
  "midrollResolved =
     runOps (newManager exampleObjects)
       [SetAdBreaks [0, 1], Update 5, Update 100, Update 340,
        StartAdBreakResume 1 (Some exampleMetadata)]"

text \<open>
  Three breaks that are all scheduled at \<open>start\<close>, and a VAST response whose linear
  creative declares the duration \<open>-1\<close>. \<open>overlappingWindows\<close> is the manager over these
  breaks after the clock has entered the second break at 35, the response for it has
  arrived, and the clock has gone on to 100. \<open>adjacentPrerollActive\<close> is the manager
  when the clock has just entered the first break.
\<close>

definition adjacentObjects :: "ref \<Rightarrow> adbreak" where
  "adjacentObjects r = exampleBreak r 0 (Num DEFAULT_AD_DURATION)"



definition adjacentPrerollActive :: manager where
  "adjacentPrerollActive =
     runOps (newManager adjacentObjects) [SetAdBreaks [0, 1, 2], Update 5]"

text \<open>
  A schedule document whose two entries, a pre-roll and a mid-roll at 300 seconds, carry
  the same \<open>breakId\<close>; the two objects that \<open>buildAdBreakList\<close> makes of it; and the
  manager over them when the clock has gone through the pre-roll and entered the mid-roll.
\<close>

definition sameIdDocument :: "vmapAdBreak list" where
  "sameIdDocument =
     [(keptEntry ''start'')\<lparr>vmapBreakId := Some ''ad''\<rparr>,
      (keptEntry ''00:05:00'')\<lparr>vmapBreakId := Some ''ad''\<rparr>]"

definition sameIdObjects :: "ref \<Rightarrow> adbreak" where
  "sameIdObjects r =
     \<lparr> index = r, timeOffset = (if r = 0 then ''start'' else ''00:05:00''),
       timeInSeconds = 300 * real r, breakId = ''ad'',
       vastUrl = Str ''https://ads.example/vast'', duration = Num DEFAULT_AD_DURATION,
       skipOffset = Num DEFAULT_SKIP_OFFSET, clickThrough = None \<rparr>"

definition sameIdMidrollActive :: manager where
  "sameIdMidrollActive =
     runOps (newManager sameIdObjects) [SetAdBreaks [0, 1], Update 5, Update 100, Update 340]"

section \<open>Evaluating the white space test and the range check\<close>

text \<open>
  Two equations for evaluation. The white space test is decided on the integer of the
  code unit, and a number below \<open>10^12\<close> in magnitude is finite without a look at the
  bound.
\<close>

lemma overflowBound_large: "1000000000000 < overflowBound"
  unfolding overflowBound_def by simp

lemma toNumber_code [code]:
  "toNumber x =
     (if \<bar>x\<bar> < 1000000000000 then Finite x
      else if overflowBound \<le> x then PlusInfinity
      else if x \<le> - overflowBound then MinusInfinity
      else Finite x)"
  using overflowBound_large unfolding toNumber_def by auto

lemma isSpace_code [code]:
  "isSpace c =
     (let i = int c
      in (9 \<le> i \<and> i \<le> 13) \<or> i = 32 \<or> i = 160 \<or> i = 5760
         \<or> (8192 \<le> i \<and> i \<le> 8202)
         \<or> i = 8232 \<or> i = 8233 \<or> i = 8239 \<or> i = 8287 \<or> i = 12288 \<or> i = 65279)"
  unfolding isSpace_def Let_def by (simp; presburger)

section \<open>Cumulative ad duration\<close>

lemma cumulativeLoop_sum:
  "cumulativeLoop bs n i t =
     t + sum_list (map adDuration (drop i (take (nat n) bs)))"
proof (induction bs n i t rule: cumulativeLoop.induct)
  case (1 bs n i t)
  show ?case
  proof (cases "int i < n \<and> i < length bs")
    case True
    then have len: "i < length (take (nat n) bs)"
      by auto
    have "drop i (take (nat n) bs) = bs ! i # drop (Suc i) (take (nat n) bs)"
      using Cons_nth_drop_Suc [OF len] len by simp
    with True "1.IH" show ?thesis
      by (subst cumulativeLoop.simps) simp
  next
    case False
    then have "drop i (take (nat n) bs) = []"
      by auto
    moreover from False have "cumulativeLoop bs n i t = t"
      by (subst cumulativeLoop.simps) auto
    ultimately show ?thesis
      by simp
  qed
qed

lemma getCumulativeAdDuration_sum:
  "getCumulativeAdDuration bs n = sum_list (map adDuration (take (nat n) bs))"
  by (simp add: getCumulativeAdDuration_def cumulativeLoop_sum)

lemma take_positions:
  "{i. i < length bs \<and> int i < n} = {0 ..< length (take (nat n) bs)}"
  by auto

lemma getCumulativeAdDuration_positions:
  "getCumulativeAdDuration bs n = (\<Sum>i | i < length bs \<and> int i < n. adDuration (bs ! i))"
proof -
  have "sum_list (map adDuration (take (nat n) bs)) =
          (\<Sum>i = 0 ..< length (take (nat n) bs). adDuration (take (nat n) bs ! i))"
    by (simp add: sum_list_sum_nth)
  also have "\<dots> = (\<Sum>i = 0 ..< length (take (nat n) bs). adDuration (bs ! i))"
    by (rule sum.cong) auto
  finally show ?thesis
    by (simp add: getCumulativeAdDuration_sum take_positions)
qed

lemma sum_list_update_real:
  "i < length xs \<Longrightarrow> sum_list (xs[i := x]) = sum_list xs - xs ! i + (x :: real)"
  by (induction xs arbitrary: i) (auto split: nat.splits)

lemma getCumulativeAdDuration_update:
  "getCumulativeAdDuration (bs[i := b]) n =
     getCumulativeAdDuration bs n +
       (if i < length bs \<and> int i < n then adDuration b - adDuration (bs ! i) else 0)"
proof (cases "i < length bs \<and> int i < n")
  case True
  then have len: "i < length (map adDuration (take (nat n) bs))" and i: "i < nat n"
    by auto
  from len i have "map adDuration (take (nat n) bs) ! i = adDuration (bs ! i)"
    by simp
  with sum_list_update_real [OF len, of "adDuration b"] True show ?thesis
    by (simp add: getCumulativeAdDuration_sum take_update_swap map_update)
next
  case False
  then have "take (nat n) (bs[i := b]) = take (nat n) bs"
    by (auto simp: list_update_beyond not_less)
  with False show ?thesis
    by (auto simp: getCumulativeAdDuration_sum)
qed

lemma adDuration_resolved:
  "duration b = Num r \<Longrightarrow> r \<noteq> 0 \<Longrightarrow> adDuration b = numberOf (duration b)"
  by (simp add: adDuration_def)

text \<open>
  C2. \<open>getCumulativeAdDuration(n)\<close> is the sum of the durations of the breaks at the
  positions below \<open>n\<close> that the list has, a break's duration being its \<open>duration\<close> field
  as the function reads it (\<open>adDuration\<close>); when every field holds a resolved, non-zero
  number it is the sum of the fields themselves. Nothing is cached: the result is a
  function of the fields as they are, so that writing a new duration into the break at
  position \<open>i\<close> moves every later result by the difference.
\<close>

theorem getCumulativeAdDuration_sums_prior_breaks:
  "getCumulativeAdDuration bs n = (\<Sum>i | i < length bs \<and> int i < n. adDuration (bs ! i))
   \<and> ((\<forall>b \<in> set bs. \<exists>r. duration b = Num r \<and> r \<noteq> 0) \<longrightarrow>
        getCumulativeAdDuration bs n =
          (\<Sum>i | i < length bs \<and> int i < n. numberOf (duration (bs ! i))))
   \<and> getCumulativeAdDuration (bs[i := b]) n =
        getCumulativeAdDuration bs n +
          (if i < length bs \<and> int i < n then adDuration b - adDuration (bs ! i) else 0)"
proof (intro conjI impI)
  show "getCumulativeAdDuration bs n = (\<Sum>i | i < length bs \<and> int i < n. adDuration (bs ! i))"
    by (rule getCumulativeAdDuration_positions)
next
  assume resolved: "\<forall>b \<in> set bs. \<exists>r. duration b = Num r \<and> r \<noteq> 0"
  have "(\<Sum>i | i < length bs \<and> int i < n. adDuration (bs ! i)) =
          (\<Sum>i | i < length bs \<and> int i < n. numberOf (duration (bs ! i)))"
  proof (rule sum.cong)
    fix i assume "i \<in> {i. i < length bs \<and> int i < n}"
    then have "bs ! i \<in> set bs" by simp
    with resolved obtain r where "duration (bs ! i) = Num r" "r \<noteq> 0" by blast
    then show "adDuration (bs ! i) = numberOf (duration (bs ! i))"
      by (rule adDuration_resolved)
  qed simp
  then show "getCumulativeAdDuration bs n =
          (\<Sum>i | i < length bs \<and> int i < n. numberOf (duration (bs ! i)))"
    by (simp add: getCumulativeAdDuration_positions)
next
  show "getCumulativeAdDuration (bs[i := b]) n =
        getCumulativeAdDuration bs n +
          (if i < length bs \<and> int i < n then adDuration b - adDuration (bs ! i) else 0)"
    by (rule getCumulativeAdDuration_update)
qed

text \<open>
  Three breaks with resolved durations 30, 45 and 20: the sum up to position 2 is 75 and
  leaves the third out; once the first break's duration is rewritten to 10 the same call
  gives 55. In the manager, the shift of the mid-roll is 30 while the pre-roll has its
  default duration and 15 as soon as the pre-roll's metadata has arrived.
\<close>

theorem getCumulativeAdDuration_sums_prior_breaks_witness:
  "getCumulativeAdDuration
     [exampleBreak 0 0 (Num 30), exampleBreak 1 300 (Num 45), exampleBreak 2 600 (Num 20)] 2 = 75
   \<and> getCumulativeAdDuration
        ([exampleBreak 0 0 (Num 30), exampleBreak 1 300 (Num 45), exampleBreak 2 600 (Num 20)]
           [0 := exampleBreak 0 0 (Num 10)]) 2 = 55
   \<and> getCumulativeAdDuration (breaksOf prerollActive) 1 = 30
   \<and> getCumulativeAdDuration
        (breaksOf (perform prerollActive (StartAdBreakResume 0 (Some exampleMetadata)))) 1 = 15"
proof -
  let ?bs = "[exampleBreak 0 0 (Num 30), exampleBreak 1 300 (Num 45), exampleBreak 2 600 (Num 20)]"
  note inst = getCumulativeAdDuration_sums_prior_breaks [of ?bs 2 0 "exampleBreak 0 0 (Num 10)"]
  have resolved: "\<forall>b \<in> set ?bs. \<exists>r. duration b = Num r \<and> r \<noteq> 0"
    by (simp add: exampleBreak_def)
  have positions: "{i. i < length ?bs \<and> int i < 2} = {0, 1}"
    by auto
  from inst resolved have "getCumulativeAdDuration ?bs 2 =
      (\<Sum>i | i < length ?bs \<and> int i < 2. numberOf (duration (?bs ! i)))"
    by blast
  then have first: "getCumulativeAdDuration ?bs 2 = 75"
    unfolding positions by (simp add: exampleBreak_def)
  from inst have "getCumulativeAdDuration (?bs[0 := exampleBreak 0 0 (Num 10)]) 2 =
      getCumulativeAdDuration ?bs 2 +
        (if 0 < length ?bs \<and> int 0 < 2
         then adDuration (exampleBreak 0 0 (Num 10)) - adDuration (?bs ! 0) else 0)"
    by blast
  with first have "getCumulativeAdDuration (?bs[0 := exampleBreak 0 0 (Num 10)]) 2 = 55"
    by (simp add: exampleBreak_def adDuration_def DEFAULT_AD_DURATION_def)
  moreover have "getCumulativeAdDuration (breaksOf prerollActive) 1 = 30"
    "getCumulativeAdDuration
        (breaksOf (perform prerollActive (StartAdBreakResume 0 (Some exampleMetadata)))) 1 = 15"
    by code_simp+
  ultimately show ?thesis
    using first by simp
qed


section \<open>Detection windows\<close>

lemma detectActiveIndex_first:
  "detectActiveIndex bs t = Some i \<longleftrightarrow>
     i < length bs \<and> inBreakWindow bs t i \<and> (\<forall>j < i. \<not> inBreakWindow bs t j)"
proof
  assume "detectActiveIndex bs t = Some i"
  then obtain k where k: "k < length [0 ..< length bs]"
      "inBreakWindow bs t ([0 ..< length bs] ! k)" "i = [0 ..< length bs] ! k"
      "\<forall>j < k. \<not> inBreakWindow bs t ([0 ..< length bs] ! j)"
    unfolding detectActiveIndex_def find_Some_iff by blast
  then have "i = k" by simp
  with k show "i < length bs \<and> inBreakWindow bs t i \<and> (\<forall>j < i. \<not> inBreakWindow bs t j)"
    by auto
next
  assume a: "i < length bs \<and> inBreakWindow bs t i \<and> (\<forall>j < i. \<not> inBreakWindow bs t j)"
  then have "i < length [0 ..< length bs] \<and> inBreakWindow bs t ([0 ..< length bs] ! i)
      \<and> i = [0 ..< length bs] ! i \<and> (\<forall>j < i. \<not> inBreakWindow bs t ([0 ..< length bs] ! j))"
    by simp
  then show "detectActiveIndex bs t = Some i"
    unfolding detectActiveIndex_def find_Some_iff by blast
qed

lemma detectActiveIndex_None:
  "detectActiveIndex bs t = None \<longleftrightarrow> (\<forall>i < length bs. \<not> inBreakWindow bs t i)"
  by (auto simp: detectActiveIndex_def find_None_iff)

lemma sum_list_nonneg_real:
  "(\<forall>x \<in> set xs. 0 \<le> x) \<Longrightarrow> 0 \<le> sum_list (xs :: real list)"
  by (induction xs) auto

lemma cumulative_step:
  assumes nonneg: "\<forall>b \<in> set bs. 0 \<le> adDuration b" and ij: "i < j" "j < length bs"
  shows "getCumulativeAdDuration bs (int i) + adDuration (bs ! i)
           \<le> getCumulativeAdDuration bs (int j)"
proof -
  have "take (Suc i) (take j bs) = take (Suc i) bs"
    using ij by (simp add: min_def)
  then have split: "take j bs = take (Suc i) bs @ drop (Suc i) (take j bs)"
    using append_take_drop_id [of "Suc i" "take j bs"] by simp
  have "set (drop (Suc i) (take j bs)) \<subseteq> set bs"
    by (meson set_drop_subset set_take_subset subset_trans)
  with nonneg have "\<forall>x \<in> set (map adDuration (drop (Suc i) (take j bs))). 0 \<le> x"
    by auto
  then have tail: "0 \<le> sum_list (map adDuration (drop (Suc i) (take j bs)))"
    by (rule sum_list_nonneg_real)
  have "sum_list (map adDuration (take j bs)) =
          sum_list (map adDuration (take (Suc i) bs)) +
          sum_list (map adDuration (drop (Suc i) (take j bs)))"
    by (subst split) simp
  moreover have "sum_list (map adDuration (take (Suc i) bs)) =
          sum_list (map adDuration (take i bs)) + adDuration (bs ! i)"
    using ij by (simp add: take_Suc_conv_app_nth)
  ultimately show ?thesis
    using tail by (simp add: getCumulativeAdDuration_sum)
qed

lemma windows_ordered:
  assumes sorted: "sorted (map timeInSeconds bs)"
    and nonneg: "\<forall>b \<in> set bs. 0 \<le> adDuration b"
    and ij: "i < j" "j < length bs"
  shows "breakEndTime bs i \<le> breakStartTime bs j"
proof -
  from ij have "i \<le> j" "j < length (map timeInSeconds bs)" by simp_all
  with sorted have "map timeInSeconds bs ! i \<le> map timeInSeconds bs ! j"
    by (rule sorted_nth_mono)
  with ij have "timeInSeconds (bs ! i) \<le> timeInSeconds (bs ! j)"
    by simp
  with cumulative_step [OF nonneg ij] show ?thesis
    by (simp add: breakEndTime_def breakStartTime_def)
qed




lemma exampleBreak_simps [simp]:
  "timeInSeconds (exampleBreak i t d) = t"
  "duration (exampleBreak i t d) = d"
  "skipOffset (exampleBreak i t d) = Num 5"
  "index (exampleBreak i t d) = i"
  "breakId (exampleBreak i t d) = ''break_'' @ showNat i"
  "clickThrough (exampleBreak i t d) = None"
  by (simp_all add: exampleBreak_def DEFAULT_SKIP_OFFSET_def)

lemma adDuration_Num [simp]:
  "duration b = Num r \<Longrightarrow> adDuration b = (if r = 0 then 30 else r)"
  by (simp add: adDuration_def DEFAULT_AD_DURATION_def)




section \<open>The invariant of the timeline state\<close>

lemma startAdBreakResume_frame:
  "startAdBreakResume s breakInfo md = Inr s' \<Longrightarrow>
     isInAdBreak s' = isInAdBreak s \<and> currentAdBreak s' = currentAdBreak s
     \<and> adBreaks s' = adBreaks s \<and> calls s' = calls s"
  by (auto simp: startAdBreakResume_def Let_def split: option.splits if_splits)


lemma skipCurrentAd_frame:
  "isInAdBreak (skipCurrentAd s p) = isInAdBreak s
   \<and> currentAdBreak (skipCurrentAd s p) = currentAdBreak s
   \<and> adBreaks (skipCurrentAd s p) = adBreaks s \<and> store (skipCurrentAd s p) = store s"
  by (simp add: skipCurrentAd_def Let_def split: option.splits)









section \<open>Skipping the current ad\<close>

lemma findIndexFrom_first:
  "i < length xs \<Longrightarrow> P (xs ! i) \<Longrightarrow> (\<forall>j < i. \<not> P (xs ! j)) \<Longrightarrow>
     findIndexFrom P xs k = k + int i"
proof (induction xs arbitrary: i k)
  case Nil
  then show ?case by simp
next
  case (Cons x xs)
  show ?case
  proof (cases i)
    case 0
    with Cons.prems show ?thesis by simp
  next
    case (Suc i')
    with Cons.prems have "\<not> P x" by auto
    moreover from Suc Cons.prems have "findIndexFrom P xs (k + 1) = k + 1 + int i'"
      by (intro Cons.IH) auto
    ultimately show ?thesis using Suc by simp
  qed
qed

lemma findIndex_first:
  "i < length xs \<Longrightarrow> P (xs ! i) \<Longrightarrow> (\<forall>j < i. \<not> P (xs ! j)) \<Longrightarrow> findIndex P xs = int i"
  using findIndexFrom_first [of i xs P 0] by (simp add: findIndex_def)

lemma breakEndTime_not_detected:
  assumes sorted: "sorted (map timeInSeconds bs)"
    and nonneg: "\<forall>b \<in> set bs. 0 \<le> adDuration b"
    and i: "i < length bs"
    and gap: "Suc i < length bs \<longrightarrow> breakEndTime bs i < breakStartTime bs (Suc i)"
  shows "detectActiveIndex bs (breakEndTime bs i) = None"
proof -
  have "\<not> inBreakWindow bs (breakEndTime bs i) j" if j: "j < length bs" for j
  proof -
    consider "j < i" | "j = i" | "j = Suc i" | "Suc i < j"
      by linarith
    then show ?thesis
    proof cases
      case 1
      have "breakEndTime bs j \<le> breakStartTime bs i"
        using windows_ordered [OF sorted nonneg 1 i] .
      moreover have "breakStartTime bs i \<le> breakEndTime bs i"
        using nonneg i by (simp add: breakEndTime_def)
      ultimately show ?thesis
        by (simp add: inBreakWindow_def)
    next
      case 2
      then show ?thesis
        by (simp add: inBreakWindow_def)
    next
      case 3
      then show ?thesis
        using gap j by (simp add: inBreakWindow_def)
    next
      case 4
      then have "Suc i < length bs"
        using j by simp
      then have "breakEndTime bs i < breakStartTime bs (Suc i)"
        using gap by simp
      moreover have "breakStartTime bs (Suc i) \<le> breakEndTime bs (Suc i)"
        using nonneg \<open>Suc i < length bs\<close> by (simp add: breakEndTime_def)
      moreover have "breakEndTime bs (Suc i) \<le> breakStartTime bs j"
        using windows_ordered [OF sorted nonneg 4 j] .
      ultimately show ?thesis
        by (simp add: inBreakWindow_def)
    qed
  qed
  then show ?thesis
    by (simp add: detectActiveIndex_None)
qed

lemma update_leaves_break:
  assumes "isInAdBreak s" and "adBreaks s \<noteq> []"
    and "detectActiveIndex (breaksOf s) t = None"
  shows "\<not> isInAdBreak (update s t)" and "currentAdBreak (update s t) = None"
  using assms by (simp_all add: update_def endAdBreak_def)

lemma breaksOf_skipCurrentAd: "breaksOf (skipCurrentAd s p) = breaksOf s"
  by (simp add: breaksOf_def skipCurrentAd_frame)

text \<open>
  C6, as the code has it. With a break active that is the first entry of the list under
  its \<open>breakId\<close> (the lookup of \<open>skipCurrentAd\<close> goes by \<open>breakId\<close>), and a player
  passed, \<open>skipCurrentAd\<close> fires the skip event of the tracker once (one call of
  \<open>trackSkip\<close>) and then seeks once, to the break's shifted start plus its duration,
  which is the end of its detection window; the duration is the \<open>duration\<close> field, and 30
  where the field is 0 or not a number. The skip leaves \<open>isInAdBreak\<close>,
  \<open>currentAdBreak\<close>, the list and the break objects as they are. A clock sample at the
  target leaves the break if no window holds the target, and none does in a list sorted
  by \<open>timeInSeconds\<close> with durations that are not negative, if the next window starts
  after the target.
\<close>

theorem skipCurrentAd_seeks_to_window_end:
  assumes "currentAdBreak s = Some cur"
    and "i < length (adBreaks s)" and "adBreaks s ! i = cur"
    and "\<forall>j < i. breakId (store s (adBreaks s ! j)) \<noteq> breakId (store s cur)"
  shows "calls (skipCurrentAd s True) =
           calls s @ [TrackerTrackSkip,
                      PlayerCurrentTime (timeInSeconds (store s cur)
                        + getCumulativeAdDuration (breaksOf s) (int i)
                        + adDuration (store s cur))]
         \<and> timeInSeconds (store s cur) + getCumulativeAdDuration (breaksOf s) (int i)
             + adDuration (store s cur) = breakEndTime (breaksOf s) i
         \<and> isInAdBreak (skipCurrentAd s True) = isInAdBreak s
         \<and> currentAdBreak (skipCurrentAd s True) = currentAdBreak s
         \<and> adBreaks (skipCurrentAd s True) = adBreaks s
         \<and> store (skipCurrentAd s True) = store s
         \<and> adDuration (store s cur) =
             (case duration (store s cur) of Num d \<Rightarrow> if d = 0 then 30 else d | _ \<Rightarrow> 30)
         \<and> getCumulativeAdDuration (breaksOf s) (int i) =
             sum_list (map adDuration (take i (breaksOf s)))
         \<and> (isInAdBreak s
              \<and> detectActiveIndex (breaksOf s) (breakEndTime (breaksOf s) i) = None \<longrightarrow>
            \<not> isInAdBreak (update (skipCurrentAd s True) (breakEndTime (breaksOf s) i))
            \<and> currentAdBreak (update (skipCurrentAd s True) (breakEndTime (breaksOf s) i))
                = None)
         \<and> (sorted (map timeInSeconds (breaksOf s))
              \<and> (\<forall>b \<in> set (breaksOf s). 0 \<le> adDuration b)
              \<and> (Suc i < length (adBreaks s) \<longrightarrow>
                   breakEndTime (breaksOf s) i < breakStartTime (breaksOf s) (Suc i)) \<longrightarrow>
            detectActiveIndex (breaksOf s) (breakEndTime (breaksOf s) i) = None)"
proof -
  let ?P = "\<lambda>b. breakId b = breakId (store s cur)"
  let ?T = "breakEndTime (breaksOf s) i"
  from assms have "findIndex ?P (breaksOf s) = int i"
    by (intro findIndex_first) (simp_all add: breaksOf_def)
  with assms have main: "calls (skipCurrentAd s True) =
           calls s @ [TrackerTrackSkip,
                      PlayerCurrentTime (timeInSeconds (store s cur)
                        + getCumulativeAdDuration (breaksOf s) (int i)
                        + adDuration (store s cur))]
         \<and> timeInSeconds (store s cur) + getCumulativeAdDuration (breaksOf s) (int i)
             + adDuration (store s cur) = breakEndTime (breaksOf s) i
         \<and> isInAdBreak (skipCurrentAd s True) = isInAdBreak s
         \<and> currentAdBreak (skipCurrentAd s True) = currentAdBreak s
         \<and> adBreaks (skipCurrentAd s True) = adBreaks s
         \<and> store (skipCurrentAd s True) = store s"
    by (simp add: skipCurrentAd_def skipCurrentAd_frame Let_def adDuration_def
        breakEndTime_def breakStartTime_def breaksOf_def)
  have field: "adDuration (store s cur) =
      (case duration (store s cur) of Num d \<Rightarrow> if d = 0 then 30 else d | _ \<Rightarrow> 30)"
    by (cases "duration (store s cur)") (simp_all add: adDuration_def DEFAULT_AD_DURATION_def)
  have cumulative: "getCumulativeAdDuration (breaksOf s) (int i) =
      sum_list (map adDuration (take i (breaksOf s)))"
    by (simp add: getCumulativeAdDuration_sum)
  have leaves: "isInAdBreak s \<and> detectActiveIndex (breaksOf s) ?T = None \<longrightarrow>
      \<not> isInAdBreak (update (skipCurrentAd s True) ?T)
      \<and> currentAdBreak (update (skipCurrentAd s True) ?T) = None"
  proof
    assume a: "isInAdBreak s \<and> detectActiveIndex (breaksOf s) ?T = None"
    have "isInAdBreak (skipCurrentAd s True)" "adBreaks (skipCurrentAd s True) \<noteq> []"
      "detectActiveIndex (breaksOf (skipCurrentAd s True)) ?T = None"
      using a assms(2) by (auto simp: skipCurrentAd_frame breaksOf_skipCurrentAd)
    then show "\<not> isInAdBreak (update (skipCurrentAd s True) ?T)
        \<and> currentAdBreak (update (skipCurrentAd s True) ?T) = None"
      using update_leaves_break [of "skipCurrentAd s True" ?T] by simp
  qed
  have free: "sorted (map timeInSeconds (breaksOf s))
        \<and> (\<forall>b \<in> set (breaksOf s). 0 \<le> adDuration b)
        \<and> (Suc i < length (adBreaks s) \<longrightarrow>
             breakEndTime (breaksOf s) i < breakStartTime (breaksOf s) (Suc i)) \<longrightarrow>
      detectActiveIndex (breaksOf s) ?T = None"
  proof
    assume a: "sorted (map timeInSeconds (breaksOf s))
        \<and> (\<forall>b \<in> set (breaksOf s). 0 \<le> adDuration b)
        \<and> (Suc i < length (adBreaks s) \<longrightarrow>
             breakEndTime (breaksOf s) i < breakStartTime (breaksOf s) (Suc i))"
    have len: "length (breaksOf s) = length (adBreaks s)"
      by (simp add: breaksOf_def)
    show "detectActiveIndex (breaksOf s) ?T = None"
      using a assms(2) len by (intro breakEndTime_not_detected) simp_all
  qed
  from main field cumulative leaves free show ?thesis
    by (intro conjI) blast+
qed

text \<open>
  The mid-roll of the example is active: its shifted start is 330 and its duration 30, so
  the one seek goes to 360, after the one skip event; the manager is still in the break
  after the skip and leaves it with the next clock sample, at 360. Once the metadata of
  the mid-roll has set its duration to 15, the seek goes to 345, and the sample at 345
  leaves the break.
\<close>

theorem skipCurrentAd_seeks_to_window_end_witness:
  "currentAdBreak midrollActive = Some 1
   \<and> calls (skipCurrentAd midrollActive True) =
        calls midrollActive @ [TrackerTrackSkip, PlayerCurrentTime 360]
   \<and> isInAdBreak (skipCurrentAd midrollActive True)
   \<and> currentAdBreak (skipCurrentAd midrollActive True) = Some 1
   \<and> \<not> isInAdBreak (update (skipCurrentAd midrollActive True) 360)
   \<and> currentAdBreak (update (skipCurrentAd midrollActive True) 360) = None
   \<and> currentAdBreak midrollResolved = Some 1
   \<and> calls (skipCurrentAd midrollResolved True) =
        calls midrollResolved @ [TrackerTrackSkip, PlayerCurrentTime 345]
   \<and> isInAdBreak (skipCurrentAd midrollResolved True)
   \<and> \<not> isInAdBreak (update (skipCurrentAd midrollResolved True) 345)
   \<and> currentAdBreak (update (skipCurrentAd midrollResolved True) 345) = None"
proof -
  have facts: "currentAdBreak s = Some 1
      \<and> calls (skipCurrentAd s True) = calls s @ [TrackerTrackSkip, PlayerCurrentTime T]
      \<and> isInAdBreak (skipCurrentAd s True)
      \<and> currentAdBreak (skipCurrentAd s True) = Some 1
      \<and> \<not> isInAdBreak (update (skipCurrentAd s True) T)
      \<and> currentAdBreak (update (skipCurrentAd s True) T) = None"
    if cur: "currentAdBreak s = Some 1"
      and inAd: "isInAdBreak s"
      and pos: "1 < length (adBreaks s)" "adBreaks s ! 1 = 1"
      and other: "breakId (store s (adBreaks s ! 0)) \<noteq> breakId (store s 1)"
      and target: "timeInSeconds (store s 1) + getCumulativeAdDuration (breaksOf s) (int 1)
        + adDuration (store s 1) = T"
      and order: "sorted (map timeInSeconds (breaksOf s))"
      and nonneg: "\<forall>b \<in> set (breaksOf s). 0 \<le> adDuration b"
      and last: "\<not> Suc 1 < length (adBreaks s)"
    for s T
  proof -
    have first: "\<forall>j < 1. breakId (store s (adBreaks s ! j)) \<noteq> breakId (store s 1)"
      using other by simp
    note inst = skipCurrentAd_seeks_to_window_end [OF cur pos first]
    from inst have seek: "calls (skipCurrentAd s True) =
        calls s @ [TrackerTrackSkip,
                   PlayerCurrentTime (timeInSeconds (store s 1)
                     + getCumulativeAdDuration (breaksOf s) (int 1) + adDuration (store s 1))]"
      and window_end: "timeInSeconds (store s 1) + getCumulativeAdDuration (breaksOf s) (int 1)
        + adDuration (store s 1) = breakEndTime (breaksOf s) 1"
      and frame: "isInAdBreak (skipCurrentAd s True) = isInAdBreak s"
        "currentAdBreak (skipCurrentAd s True) = currentAdBreak s"
      by blast+
    have T: "breakEndTime (breaksOf s) 1 = T"
      using window_end target by (simp only:)
    from inst order nonneg last
    have "detectActiveIndex (breaksOf s) (breakEndTime (breaksOf s) 1) = None"
      by blast
    with inst inAd
    have "\<not> isInAdBreak (update (skipCurrentAd s True) (breakEndTime (breaksOf s) 1))
        \<and> currentAdBreak (update (skipCurrentAd s True) (breakEndTime (breaksOf s) 1)) = None"
      by blast
    then have leaves: "\<not> isInAdBreak (update (skipCurrentAd s True) T)
        \<and> currentAdBreak (update (skipCurrentAd s True) T) = None"
      unfolding T .
    have "calls (skipCurrentAd s True) = calls s @ [TrackerTrackSkip, PlayerCurrentTime T]"
      using seek unfolding target .
    with cur inAd frame leaves show ?thesis
      by simp
  qed
  have a: "currentAdBreak midrollActive = Some 1" "isInAdBreak midrollActive"
    "1 < length (adBreaks midrollActive)" "adBreaks midrollActive ! 1 = 1"
    "breakId (store midrollActive (adBreaks midrollActive ! 0)) \<noteq> breakId (store midrollActive 1)"
    "timeInSeconds (store midrollActive 1)
      + getCumulativeAdDuration (breaksOf midrollActive) (int 1)
      + adDuration (store midrollActive 1) = 360"
    "sorted (map timeInSeconds (breaksOf midrollActive))"
    "\<forall>b \<in> set (breaksOf midrollActive). 0 \<le> adDuration b"
    "\<not> Suc 1 < length (adBreaks midrollActive)"
    by code_simp+
  have b: "currentAdBreak midrollResolved = Some 1" "isInAdBreak midrollResolved"
    "1 < length (adBreaks midrollResolved)" "adBreaks midrollResolved ! 1 = 1"
    "breakId (store midrollResolved (adBreaks midrollResolved ! 0))
      \<noteq> breakId (store midrollResolved 1)"
    "timeInSeconds (store midrollResolved 1)
      + getCumulativeAdDuration (breaksOf midrollResolved) (int 1)
      + adDuration (store midrollResolved 1) = 345"
    "sorted (map timeInSeconds (breaksOf midrollResolved))"
    "\<forall>b \<in> set (breaksOf midrollResolved). 0 \<le> adDuration b"
    "\<not> Suc 1 < length (adBreaks midrollResolved)"
    by code_simp+
  from facts [OF a] facts [OF b] show ?thesis
    by simp
qed

text \<open>
  The claim is about every active break. In the schedule built from a document whose two
  entries carry the same \<open>breakId\<close>, the mid-roll is active, its window is from 330 to
  360, and the skip seeks to 330: the lookup by \<open>breakId\<close> finds the pre-roll's position,
  so no prior duration is added. The sample at 330 is inside the window and the break
  goes on. With breaks that follow each other without a gap, the first of three breaks
  at \<open>start\<close> is active, the skip seeks to its end at 30, and the sample at 30 lies in
  the window of the second break: the manager stays in the first break.
\<close>

theorem skip_target_counterexample:
  "buildAdBreakList sameIdDocument 596 = [sameIdObjects 0, sameIdObjects 1]
   \<and> breaksOf sameIdMidrollActive = [sameIdObjects 0, sameIdObjects 1]
   \<and> isInAdBreak sameIdMidrollActive
   \<and> currentAdBreak sameIdMidrollActive = Some 1
   \<and> timeInSeconds (breaksOf sameIdMidrollActive ! 1)
        + getCumulativeAdDuration (breaksOf sameIdMidrollActive) (int 1) = 330
   \<and> adDuration (breaksOf sameIdMidrollActive ! 1) = 30
   \<and> calls (skipCurrentAd sameIdMidrollActive True) =
        calls sameIdMidrollActive @ [TrackerTrackSkip, PlayerCurrentTime 330]
   \<and> isInAdBreak (update (skipCurrentAd sameIdMidrollActive True) 330)
   \<and> currentAdBreak (update (skipCurrentAd sameIdMidrollActive True) 330) = Some 1
   \<and> isInAdBreak adjacentPrerollActive
   \<and> currentAdBreak adjacentPrerollActive = Some 0
   \<and> calls (skipCurrentAd adjacentPrerollActive True) =
        calls adjacentPrerollActive @ [TrackerTrackSkip, PlayerCurrentTime 30]
   \<and> isInAdBreak (update (skipCurrentAd adjacentPrerollActive True) 30)
   \<and> currentAdBreak (update (skipCurrentAd adjacentPrerollActive True) 30) = Some 0"
  by (intro conjI; code_simp)


section \<open>A duration field that is unset or zero\<close>

lemma getCumulativeAdDuration_cong:
  "map adDuration bs = map adDuration bs' \<Longrightarrow>
     getCumulativeAdDuration bs n = getCumulativeAdDuration bs' n"
  by (simp add: getCumulativeAdDuration_sum flip: take_map)

lemma inBreakWindow_cong:
  assumes d: "map adDuration bs = map adDuration bs'"
    and t: "map timeInSeconds bs = map timeInSeconds bs'"
    and i: "i < length bs"
  shows "inBreakWindow bs t' i = inBreakWindow bs' t' i"
proof -
  from d have len: "length bs = length bs'"
    by (rule map_eq_imp_length_eq)
  from d i len have "adDuration (bs ! i) = adDuration (bs' ! i)"
    by (metis nth_map)
  moreover from t i len have "timeInSeconds (bs ! i) = timeInSeconds (bs' ! i)"
    by (metis nth_map)
  ultimately show ?thesis
    using getCumulativeAdDuration_cong [OF d]
    by (simp add: inBreakWindow_def breakStartTime_def breakEndTime_def)
qed

lemma detectActiveIndex_cong:
  assumes d: "map adDuration bs = map adDuration bs'"
    and t: "map timeInSeconds bs = map timeInSeconds bs'"
  shows "detectActiveIndex bs t' = detectActiveIndex bs' t'"
proof -
  from d have len: "length bs = length bs'"
    by (rule map_eq_imp_length_eq)
  have "List.find (inBreakWindow bs t') [0 ..< length bs] =
        List.find (inBreakWindow bs' t') [0 ..< length bs]"
    by (rule find_cong) (simp_all add: inBreakWindow_cong [OF d t])
  with len show ?thesis
    by (simp add: detectActiveIndex_def)
qed

lemma adDuration_unset:
  "v = Num 0 \<or> v = Null \<or> v = Undefined \<or> v = NaN \<Longrightarrow> adDuration (b\<lparr>duration := v\<rparr>) = 30"
  by (auto simp: adDuration_def DEFAULT_AD_DURATION_def)

lemma getCumulativeAdDuration_Suc:
  "i < length bs \<Longrightarrow>
     getCumulativeAdDuration bs (int (Suc i)) =
       getCumulativeAdDuration bs (int i) + adDuration (bs ! i)"
proof -
  assume "i < length bs"
  moreover have "nat (int (Suc i)) = Suc i" "nat (int i) = i"
    by simp_all
  ultimately show ?thesis
    unfolding getCumulativeAdDuration_sum by (simp only: take_Suc_conv_app_nth) simp
qed

text \<open>
  C10. A break whose \<open>duration\<close> field is 0, \<open>null\<close> or \<open>undefined\<close> counts with the
  30-second default everywhere: \<open>getCumulativeAdDuration\<close> adds 30 for it,
  \<open>detectActiveBreak\<close> gives it a window of 30 seconds, which holds its own start and so
  is never empty, \<open>updateProgress\<close> reports a duration of 30 and \<open>skipCurrentAd\<close> adds 30
  to the seek target. Writing \<open>undefined\<close> over the field changes no cumulative duration
  and no detection: a resolved duration of 0 cannot be told from an unresolved one.
\<close>

theorem unset_duration_counts_as_default:
  assumes "v = Num 0 \<or> v = Null \<or> v = Undefined"
    and "i < length bs" and "duration (bs ! i) = v"
    and "currentAdBreak s = Some cur" and "duration (store s cur) = v"
  shows "getCumulativeAdDuration bs (int (Suc i)) = getCumulativeAdDuration bs (int i) + 30
     \<and> (inBreakWindow bs t i \<longleftrightarrow> breakStartTime bs i \<le> t \<and> t < breakStartTime bs i + 30)
     \<and> inBreakWindow bs (breakStartTime bs i) i
     \<and> getCumulativeAdDuration (bs[i := (bs ! i)\<lparr>duration := Undefined\<rparr>]) n
          = getCumulativeAdDuration bs n
     \<and> detectActiveIndex (bs[i := (bs ! i)\<lparr>duration := Undefined\<rparr>]) t = detectActiveIndex bs t
     \<and> calls (updateProgress s elapsed) =
          calls s @ [OverlayUpdateSkipButton elapsed 30
                       (or_default (skipOffset (store s cur)) DEFAULT_SKIP_OFFSET),
                     TrackerSetProgress elapsed]
     \<and> calls (skipCurrentAd s True) =
          calls s @ [TrackerTrackSkip,
                     PlayerCurrentTime (timeInSeconds (store s cur)
                       + getCumulativeAdDuration (breaksOf s)
                           (findIndex (\<lambda>b. breakId b = breakId (store s cur)) (breaksOf s))
                       + 30)]"
proof -
  from assms(1,3) have d: "adDuration (bs ! i) = 30"
    by (auto simp: adDuration_def DEFAULT_AD_DURATION_def)
  from assms(1,5) have dcur: "or_default (duration (store s cur)) DEFAULT_AD_DURATION = 30"
    by (auto simp: DEFAULT_AD_DURATION_def)
  let ?bs' = "bs[i := (bs ! i)\<lparr>duration := Undefined\<rparr>]"
  have "adDuration ((bs ! i)\<lparr>duration := Undefined\<rparr>) = adDuration (bs ! i)"
    using d by (simp add: adDuration_def DEFAULT_AD_DURATION_def)
  then have same_d: "map adDuration ?bs' = map adDuration bs"
    by (simp add: map_update list_update_same_conv assms(2))
  have same_t: "map timeInSeconds ?bs' = map timeInSeconds bs"
    by (simp add: map_update list_update_same_conv assms(2))
  have 1: "getCumulativeAdDuration bs (int (Suc i)) = getCumulativeAdDuration bs (int i) + 30"
    using getCumulativeAdDuration_Suc [OF assms(2)] d by simp
  have 2: "inBreakWindow bs t i \<longleftrightarrow> breakStartTime bs i \<le> t \<and> t < breakStartTime bs i + 30"
    using d by (simp add: inBreakWindow_def breakEndTime_def)
  have 3: "inBreakWindow bs (breakStartTime bs i) i"
    using d by (simp add: inBreakWindow_def breakEndTime_def)
  have 4: "getCumulativeAdDuration ?bs' n = getCumulativeAdDuration bs n"
    by (rule getCumulativeAdDuration_cong [OF same_d])
  have 5: "detectActiveIndex ?bs' t = detectActiveIndex bs t"
    by (rule detectActiveIndex_cong [OF same_d same_t])
  have 6: "calls (updateProgress s elapsed) =
          calls s @ [OverlayUpdateSkipButton elapsed 30
                       (or_default (skipOffset (store s cur)) DEFAULT_SKIP_OFFSET),
                     TrackerSetProgress elapsed]"
    using assms(4) dcur by (simp add: updateProgress_def Let_def)
  have 7: "calls (skipCurrentAd s True) =
          calls s @ [TrackerTrackSkip,
                     PlayerCurrentTime (timeInSeconds (store s cur)
                       + getCumulativeAdDuration (breaksOf s)
                           (findIndex (\<lambda>b. breakId b = breakId (store s cur)) (breaksOf s))
                       + 30)]"
    using assms(4) dcur by (simp add: skipCurrentAd_def Let_def)
  from 1 2 3 4 5 6 7 show ?thesis
    by blast
qed


text \<open>
  A pre-roll whose duration resolved to 0, before a mid-roll that is not resolved: the
  pre-roll counts 30 seconds, the sample 29.9 is still inside its window, the manager
  entered it at the sample 5, and a skip seeks to 30.
\<close>

theorem unset_duration_counts_as_default_witness:
  "getCumulativeAdDuration [exampleBreak 0 0 (Num 0), exampleBreak 1 300 Undefined] 1 = 30
   \<and> detectActiveIndex [exampleBreak 0 0 (Num 0), exampleBreak 1 300 Undefined] 29.9 = Some 0
   \<and> currentAdBreak zeroDurationActive = Some 0
   \<and> duration (store zeroDurationActive 0) = Num 0
   \<and> calls (skipCurrentAd zeroDurationActive True) =
        calls zeroDurationActive @ [TrackerTrackSkip, PlayerCurrentTime 30]"
proof -
  let ?bs = "[exampleBreak 0 0 (Num 0), exampleBreak 1 300 Undefined]"
  have v: "Num 0 = Num 0 \<or> Num 0 = Null \<or> Num 0 = Undefined"
    by simp
  have i: "0 < length ?bs" and d: "duration (?bs ! 0) = Num 0"
    by simp_all
  have cur: "currentAdBreak zeroDurationActive = Some 0"
    and dcur: "duration (store zeroDurationActive 0) = Num 0"
    by code_simp+
  note inst = unset_duration_counts_as_default [OF v i d cur dcur, of "29.9"]
  have start: "breakStartTime ?bs 0 = 0"
    by (simp add: breakStartTime_def getCumulativeAdDuration_sum)
  have "getCumulativeAdDuration ?bs (int 0) = 0"
    by (simp add: getCumulativeAdDuration_sum)
  with inst have cum: "getCumulativeAdDuration ?bs 1 = 30"
    by simp
  from inst start have "inBreakWindow ?bs 29.9 0"
    by simp
  then have det: "detectActiveIndex ?bs 29.9 = Some 0"
    by (simp add: detectActiveIndex_first)
  have "timeInSeconds (store zeroDurationActive 0)
      + getCumulativeAdDuration (breaksOf zeroDurationActive)
          (findIndex (\<lambda>b. breakId b = breakId (store zeroDurationActive 0))
             (breaksOf zeroDurationActive))
      + 30 = 30"
    by code_simp
  with inst have "calls (skipCurrentAd zeroDurationActive True) =
        calls zeroDurationActive @ [TrackerTrackSkip, PlayerCurrentTime 30]"
    by simp
  with cum det cur dcur show ?thesis
    by simp
qed


section \<open>Metadata that arrives late\<close>

lemma startAdBreakResume_current:
  assumes "currentAdBreak s = Some cur"
  shows "\<exists>s'. startAdBreakResume s breakInfo (Some m) = Inr s'
           \<and> duration (store s' cur) = Num (mdDuration m)
           \<and> skipOffset (store s' cur) = Num (mdSkipOffset m)
           \<and> clickThrough (store s' cur) = mdClickThrough m"
  using assms by (simp add: startAdBreakResume_def Let_def)

lemma initializeAdTrackingResume_frame:
  "isInAdBreak (initializeAdTrackingResume s breakInfo c) = isInAdBreak s
   \<and> currentAdBreak (initializeAdTrackingResume s breakInfo c) = currentAdBreak s
   \<and> adBreaks (initializeAdTrackingResume s breakInfo c) = adBreaks s"
  by (simp add: initializeAdTrackingResume_def Let_def split: option.splits)

lemma initializeAdTrackingResume_current:
  assumes "currentAdBreak s = Some cur"
  shows "duration (store (initializeAdTrackingResume s breakInfo c) cur)
           = Num (or_default (creativeDuration c) 30)
     \<and> skipOffset (store (initializeAdTrackingResume s breakInfo c) cur)
           = Num (or_default (skipDelay c) 5)"
  using assms by (simp add: initializeAdTrackingResume_def Let_def)

text \<open>
  C4, as the code has it. No break identity is compared when the metadata of a break
  arrives. The continuation never changes \<open>isInAdBreak\<close>, \<open>currentAdBreak\<close> or the list,
  so a late result cannot make the break that has been left active again, and a \<open>null\<close>
  result changes nothing. But whenever some break is current at that moment, be it the
  one the resolution was started for or another one entered since, the duration, the skip
  offset and the click-through of the result are written to that current break. The
  function-based build does the same, and writes nothing while no break is current.
\<close>

theorem late_metadata_goes_to_current_break:
  "(startAdBreakResume s breakInfo md = Inr s' \<longrightarrow>
      isInAdBreak s' = isInAdBreak s \<and> currentAdBreak s' = currentAdBreak s
      \<and> adBreaks s' = adBreaks s \<and> calls s' = calls s)
   \<and> startAdBreakResume s breakInfo None = Inr s
   \<and> (currentAdBreak s = Some cur \<longrightarrow>
        (\<exists>s'. startAdBreakResume s breakInfo (Some m) = Inr s'
           \<and> duration (store s' cur) = Num (mdDuration m)
           \<and> skipOffset (store s' cur) = Num (mdSkipOffset m)
           \<and> clickThrough (store s' cur) = mdClickThrough m))
   \<and> isInAdBreak (initializeAdTrackingResume s breakInfo c) = isInAdBreak s
   \<and> currentAdBreak (initializeAdTrackingResume s breakInfo c) = currentAdBreak s
   \<and> (currentAdBreak s = None \<longrightarrow> initializeAdTrackingResume s breakInfo c = s)
   \<and> (currentAdBreak s = Some cur \<longrightarrow>
        duration (store (initializeAdTrackingResume s breakInfo c) cur)
          = Num (or_default (creativeDuration c) 30)
        \<and> skipOffset (store (initializeAdTrackingResume s breakInfo c) cur)
          = Num (or_default (skipDelay c) 5))"
proof (intro conjI impI)
  show "isInAdBreak s' = isInAdBreak s" "currentAdBreak s' = currentAdBreak s"
    "adBreaks s' = adBreaks s" "calls s' = calls s"
    if "startAdBreakResume s breakInfo md = Inr s'"
    using startAdBreakResume_frame [OF that] by simp_all
  show "startAdBreakResume s breakInfo None = Inr s"
    by (simp add: startAdBreakResume_def)
  show "\<exists>s'. startAdBreakResume s breakInfo (Some m) = Inr s'
           \<and> duration (store s' cur) = Num (mdDuration m)
           \<and> skipOffset (store s' cur) = Num (mdSkipOffset m)
           \<and> clickThrough (store s' cur) = mdClickThrough m"
    if "currentAdBreak s = Some cur"
    using that by (rule startAdBreakResume_current)
  show "isInAdBreak (initializeAdTrackingResume s breakInfo c) = isInAdBreak s"
    "currentAdBreak (initializeAdTrackingResume s breakInfo c) = currentAdBreak s"
    by (simp_all add: initializeAdTrackingResume_frame)
  show "initializeAdTrackingResume s breakInfo c = s" if "currentAdBreak s = None"
    using that by (simp add: initializeAdTrackingResume_def)
  show "duration (store (initializeAdTrackingResume s breakInfo c) cur)
          = Num (or_default (creativeDuration c) 30)"
    "skipOffset (store (initializeAdTrackingResume s breakInfo c) cur)
          = Num (or_default (skipDelay c) 5)"
    if "currentAdBreak s = Some cur"
    using initializeAdTrackingResume_current [OF that] by simp_all
qed

text \<open>
  The metadata of the pre-roll arrives when the clock has left the pre-roll and entered
  the mid-roll: the manager stays in the mid-roll, and the mid-roll now has the
  pre-roll's duration of 15 seconds.
\<close>

theorem late_metadata_goes_to_current_break_witness:
  "currentAdBreak midrollActive = Some 1
   \<and> (\<exists>s'. startAdBreakResume midrollActive 0 (Some exampleMetadata) = Inr s'
         \<and> isInAdBreak s' \<and> currentAdBreak s' = Some 1
         \<and> duration (store s' 1) = Num 15 \<and> skipOffset (store s' 1) = Num 3)"
proof -
  have cur: "currentAdBreak midrollActive = Some 1" and inAd: "isInAdBreak midrollActive"
    by code_simp+
  note inst = late_metadata_goes_to_current_break
    [of midrollActive 0 "Some exampleMetadata" _ 1 exampleMetadata]
  from inst cur obtain s' where s':
    "startAdBreakResume midrollActive 0 (Some exampleMetadata) = Inr s'"
    "duration (store s' 1) = Num (mdDuration exampleMetadata)"
    "skipOffset (store s' 1) = Num (mdSkipOffset exampleMetadata)"
    by blast
  from late_metadata_goes_to_current_break
    [of midrollActive 0 "Some exampleMetadata" s'] s'(1) cur inAd
  have "isInAdBreak s'" "currentAdBreak s' = Some 1"
    by simp_all
  with s' cur show ?thesis
    by (simp add: exampleMetadata_def)
qed

text \<open>
  Against C4 as stated: the result for the pre-roll (reference 0) that arrives while the
  mid-roll (reference 1) is the current break is not discarded but applied to the
  mid-roll, whose duration goes from 30 to 15; and when it arrives while no break is
  current, the write to \<open>this.currentAdBreak\<close> throws.
\<close>

theorem late_metadata_counterexample:
  "currentAdBreak midrollActive = Some 1
   \<and> duration (store midrollActive 1) = Num 30
   \<and> duration (store (perform midrollActive (StartAdBreakResume 0 (Some exampleMetadata))) 1)
        = Num 15
   \<and> clickThrough (store (perform midrollActive (StartAdBreakResume 0 (Some exampleMetadata))) 1)
        = Some (Str ''https://ads.example/landing'')
   \<and> currentAdBreak betweenBreaks = None
   \<and> startAdBreakResume betweenBreaks 0 (Some exampleMetadata) = Inl TypeError"
proof -
  have active: "currentAdBreak midrollActive = Some 1"
    "duration (store midrollActive 1) = Num 30"
    "duration (store (perform midrollActive (StartAdBreakResume 0 (Some exampleMetadata))) 1)
        = Num 15"
    "clickThrough (store (perform midrollActive (StartAdBreakResume 0 (Some exampleMetadata))) 1)
        = Some (Str ''https://ads.example/landing'')"
    by code_simp+
  have idle: "currentAdBreak betweenBreaks = None"
    by code_simp
  then have "startAdBreakResume betweenBreaks 0 (Some exampleMetadata) = Inl TypeError"
    by (simp add: startAdBreakResume_def)
  with active idle show ?thesis
    by simp
qed


section \<open>Client-swap build: the guard against triggering a break again\<close>

lemma dueLoop_not_last:
  "lastTriggeredBreakIndex s = int i \<Longrightarrow> dueLoop s t k \<noteq> Some i"
proof (induction s t k rule: dueLoop.induct)
  case (1 s t k)
  show ?case
  proof (cases "k < length (clientAdBreaks s)")
    case False
    then show ?thesis
      by (subst dueLoop.simps) simp
  next
    case True
    show ?thesis
    proof (cases "k = i")
      case True
      with \<open>k < length (clientAdBreaks s)\<close> "1.prems" "1.IH"(1) show ?thesis
        by (subst dueLoop.simps) simp
    next
      case False
      with True "1.prems" "1.IH" show ?thesis
        by (subst dueLoop.simps) (auto simp: Let_def)
    qed
  qed
qed

lemma handleContentTimeUpdate_cases:
  assumes "lastTriggeredBreakIndex s = int i"
  shows "(triggers (handleContentTimeUpdate s t) = triggers s
            \<and> lastTriggeredBreakIndex (handleContentTimeUpdate s t) = lastTriggeredBreakIndex s)
         \<or> (\<exists>j. j \<noteq> i \<and> triggers (handleContentTimeUpdate s t) = triggers s @ [j])"
proof (cases "dueLoop s t 0")
  case None
  then show ?thesis
    by (simp add: handleContentTimeUpdate_def)
next
  case (Some j)
  with dueLoop_not_last [OF assms, of t 0] have "j \<noteq> i"
    by auto
  with Some show ?thesis
    by (auto simp: handleContentTimeUpdate_def triggerAdBreak_def)
qed

lemma step_cases:
  assumes "lastTriggeredBreakIndex s = int i" and "e \<noteq> VastRejected"
  shows "(triggers (step s e) = triggers s
            \<and> lastTriggeredBreakIndex (step s e) = lastTriggeredBreakIndex s)
         \<or> (\<exists>j. j \<noteq> i \<and> triggers (step s e) = triggers s @ [j])"
proof (cases e)
  case (ContentTimeUpdate t)
  with handleContentTimeUpdate_cases [OF assms(1), of t] show ?thesis
    by auto
next
  case (VastResolved breakInfo ads)
  then show ?thesis
    by (simp add: vastResolved_def split: option.splits)
next
  case VastRejected
  with assms(2) show ?thesis by simp
next
  case (AdTimeUpdate elapsed)
  then show ?thesis
    by (simp add: onAdTimeUpdate_def cleanupAdAndResume_def split: option.splits)
next
  case AdEnded
  then show ?thesis
    by (simp add: cleanupAdAndResume_def split: option.splits)
next
  case SkipAd
  then show ?thesis
    by (simp add: cleanupAdAndResume_def split: option.splits)
next
  case ContentResumed
  then show ?thesis by simp
qed

lemma triggers_step_grow:
  "\<exists>new. triggers (step s e) = triggers s @ new"
proof (cases e)
  case (ContentTimeUpdate t)
  then show ?thesis
    by (auto simp: handleContentTimeUpdate_def triggerAdBreak_def split: option.splits)
next
  case (VastResolved breakInfo ads)
  then show ?thesis
    by (simp add: vastResolved_def split: option.splits)
next
  case (AdTimeUpdate elapsed)
  then show ?thesis
    by (simp add: onAdTimeUpdate_def cleanupAdAndResume_def split: option.splits)
qed (simp_all add: vastRejected_def cleanupAdAndResume_def split: option.splits)

lemma triggers_run_grow:
  "\<exists>new. triggers (foldl step s evs) = triggers s @ new"
proof (induction evs arbitrary: s)
  case Nil
  then show ?case by simp
next
  case (Cons e evs)
  from triggers_step_grow [of s e] obtain n1 where "triggers (step s e) = triggers s @ n1"
    by blast
  moreover from Cons.IH [of "step s e"] obtain n2
    where "triggers (foldl step (step s e) evs) = triggers (step s e) @ n2"
    by blast
  ultimately show ?case by simp
qed

lemma next_trigger_differs:
  assumes "lastTriggeredBreakIndex s = int i" and "VastRejected \<notin> set evs"
  shows "\<exists>new. triggers (foldl step s evs) = triggers s @ new \<and> (new = [] \<or> hd new \<noteq> i)"
  using assms
proof (induction evs arbitrary: s)
  case Nil
  then show ?case by simp
next
  case (Cons e evs)
  then have e: "e \<noteq> VastRejected" and evs: "VastRejected \<notin> set evs"
    by auto
  from step_cases [OF Cons.prems(1) e]
  consider (quiet) "triggers (step s e) = triggers s"
      "lastTriggeredBreakIndex (step s e) = lastTriggeredBreakIndex s"
    | (fired) j where "j \<noteq> i" "triggers (step s e) = triggers s @ [j]"
    by blast
  then show ?case
  proof cases
    case quiet
    with Cons.IH [of "step s e"] Cons.prems(1) evs show ?thesis
      by simp
  next
    case fired
    from triggers_run_grow [of "step s e" evs] obtain n2
      where "triggers (foldl step (step s e) evs) = triggers (step s e) @ n2"
      by blast
    with fired have "triggers (foldl step s (e # evs)) = triggers s @ (j # n2)"
      by simp
    with fired(1) show ?thesis
      by (intro exI [of _ "j # n2"]) simp
  qed
qed

text \<open>
  C3, as the code has it. \<open>lastTriggeredBreakIndex\<close> remembers one break, the last one
  triggered. Once the break at position \<open>i\<close> has been triggered (its \<open>index\<close> being its
  position in the list), then whatever follows short of a failed VAST fetch (the VAST
  answer, the ad, its end or a skip, the return to the content, clock samples anywhere,
  also inside that break's window again), the next break to be triggered, if there is
  one, is another break.
\<close>

theorem triggered_break_waits_for_another_trigger:
  assumes "currentAd s = None" and "index (clientAdBreaks s ! i) = i"
    and "VastRejected \<notin> set evs"
  shows "\<exists>new. triggers (runEvents (triggerAdBreak s i) evs) = triggers s @ [i] @ new
           \<and> (new = [] \<or> hd new \<noteq> i)"
proof -
  from assms(1,2) have last: "lastTriggeredBreakIndex (triggerAdBreak s i) = int i"
    and log: "triggers (triggerAdBreak s i) = triggers s @ [i]"
    by (simp_all add: triggerAdBreak_def)
  from next_trigger_differs [OF last assms(3)] log show ?thesis
    by (simp add: runEvents_def)
qed


text \<open>
  The pre-roll is triggered, its ad plays and ends, the content resumes, and the clock is
  seen twice more inside the pre-roll's window (a seek back to the start): the pre-roll
  stays the only break triggered.
\<close>

theorem triggered_break_waits_for_another_trigger_witness:
  "currentAd (runEvents (triggerAdBreak exampleClient 0)
       [VastResolved (exampleBreak 0 0 Undefined) exampleAds]) \<noteq> None
   \<and> currentAd (runEvents (triggerAdBreak exampleClient 0)
       [VastResolved (exampleBreak 0 0 Undefined) exampleAds, AdEnded]) = None
   \<and> triggers (runEvents (triggerAdBreak exampleClient 0)
       [VastResolved (exampleBreak 0 0 Undefined) exampleAds, AdEnded, ContentResumed,
        ContentTimeUpdate 0.2, ContentTimeUpdate 0.4]) = [0]"
proof -
  let ?evs = "[VastResolved (exampleBreak 0 0 Undefined) exampleAds, AdEnded, ContentResumed,
        ContentTimeUpdate 0.2, ContentTimeUpdate 0.4]"
  have idle: "currentAd exampleClient = None"
    and pos: "index (clientAdBreaks exampleClient ! 0) = 0"
    and before: "triggers exampleClient = []"
    by code_simp+
  have quiet: "VastRejected \<notin> set ?evs"
    by simp
  from triggered_break_waits_for_another_trigger [OF idle pos quiet] before
  obtain new where new: "triggers (runEvents (triggerAdBreak exampleClient 0) ?evs) = 0 # new"
    "new = [] \<or> hd new \<noteq> 0"
    by auto
  have "length (triggers (runEvents (triggerAdBreak exampleClient 0) ?evs)) = 1"
    by code_simp
  with new have log: "triggers (runEvents (triggerAdBreak exampleClient 0) ?evs) = [0]"
    by simp
  have "currentAd (runEvents (triggerAdBreak exampleClient 0)
       [VastResolved (exampleBreak 0 0 Undefined) exampleAds]) \<noteq> None"
    "currentAd (runEvents (triggerAdBreak exampleClient 0)
       [VastResolved (exampleBreak 0 0 Undefined) exampleAds, AdEnded]) = None"
    by code_simp+
  with log show ?thesis
    by simp
qed

text \<open>
  Against C3 as stated: the pre-roll is triggered and its ad ends, the mid-roll is
  triggered at 300 and its ad ends, and then a clock sample of 0.2, again inside the
  pre-roll's window, triggers the pre-roll a second time.
\<close>

theorem retrigger_after_other_break_counterexample:
  "currentAd (runEvents exampleClient
       [ContentTimeUpdate 0.1, VastResolved (exampleBreak 0 0 Undefined) exampleAds]) \<noteq> None
   \<and> currentAd (runEvents exampleClient
       [ContentTimeUpdate 0.1, VastResolved (exampleBreak 0 0 Undefined) exampleAds,
        AdEnded]) = None
   \<and> triggers (runEvents exampleClient
       [ContentTimeUpdate 0.1, VastResolved (exampleBreak 0 0 Undefined) exampleAds,
        AdEnded, ContentResumed,
        ContentTimeUpdate 300, VastResolved (exampleBreak 1 300 Undefined) exampleAds,
        AdEnded, ContentResumed,
        ContentTimeUpdate 0.2]) = [0, 1, 0]"
  by code_simp


text \<open>
  The guard compares \<open>lastTriggeredBreakIndex\<close>, which holds the \<open>index\<close> field of a
  break, with the position in the sorted list. For a document that lists the mid-roll
  before the pre-roll the two differ, and the pre-roll is triggered by two clock samples
  in a row.
\<close>

lemma guard_compares_index_with_position:
  "triggers (runEvents
     (loaded [exampleBreak 1 0 Undefined, exampleBreak 0 300 Undefined] 596
        ''https://cdn.example/content.mp4'')
     [ContentTimeUpdate 0.1, ContentTimeUpdate 0.2]) = [0, 0]"
  by code_simp

section \<open>The resolved duration and skip offset\<close>

lemma initialize_Some:
  "initialize breakInfo response = Some md \<Longrightarrow>
     \<exists>ads validAd c. response = Resolved ads \<and> List.find hasCreatives ads = Some validAd
        \<and> getLinearCreative validAd = Some c \<and> md = extractMetadata c"
  by (auto simp: initialize_def split: if_splits fetched.splits option.splits)

text \<open>
  C9, as the code has it. The resolver of the stream-relative build
  (\<open>AdTracker.initialize\<close>, \<open>extractMetadata\<close> of the creative it chose) gives the declared
  duration when that is a positive number and 30 when it is absent or 0, and the declared
  skip delay when that is a positive number and 5 when it is absent. The resolver of the
  client-swap build (\<open>triggerAdBreak\<close>) gives the declared duration when that is a
  positive number and 15 in every other case, and the declared skip delay when that is
  present and not negative, a delay of exactly 0 included, and 5 in every other case.
\<close>

theorem resolved_duration_and_skip_offset:
  "(initialize breakInfo response = Some md \<longrightarrow>
      (\<exists>ads validAd cr. response = Resolved ads \<and> List.find hasCreatives ads = Some validAd
          \<and> getLinearCreative validAd = Some cr \<and> md = extractMetadata cr))
   \<and> (creativeDuration c = Num d \<and> 0 < d \<longrightarrow>
        mdDuration (extractMetadata c) = d \<and> triggerDuration c = d)
   \<and> (creativeDuration c = Undefined \<or> creativeDuration c = Null \<or> creativeDuration c = NaN
        \<or> creativeDuration c = Num 0 \<longrightarrow>
        mdDuration (extractMetadata c) = 30 \<and> triggerDuration c = 15)
   \<and> (creativeDuration c = Num d \<and> d < 0 \<longrightarrow> triggerDuration c = 15)
   \<and> (skipDelay c = Num k \<and> 0 < k \<longrightarrow>
        mdSkipOffset (extractMetadata c) = k \<and> triggerSkipOffset c = Num k)
   \<and> (skipDelay c = Undefined \<or> skipDelay c = Null \<or> skipDelay c = NaN \<longrightarrow>
        mdSkipOffset (extractMetadata c) = 5 \<and> triggerSkipOffset c = Num 5)
   \<and> (skipDelay c = Num 0 \<longrightarrow> triggerSkipOffset c = Num 0)
   \<and> (skipDelay c = Num k \<and> k < 0 \<longrightarrow> triggerSkipOffset c = Num 5)"
proof (intro conjI impI)
  show "\<exists>ads validAd cr. response = Resolved ads \<and> List.find hasCreatives ads = Some validAd
          \<and> getLinearCreative validAd = Some cr \<and> md = extractMetadata cr"
    if "initialize breakInfo response = Some md"
    using that by (rule initialize_Some)
qed (auto simp: extractMetadata_def triggerDuration_def triggerSkipOffset_def
      DEFAULT_AD_DURATION_def DEFAULT_SKIP_OFFSET_def)

text \<open>
  The example creative declares 20 seconds and a skip delay of 0: both resolvers give a
  duration of 20 and the client-swap one a skip offset of 0; with nothing declared the
  defaults are 30 and 5 in the stream-relative build, 15 and 5 in the client-swap build.
\<close>

theorem resolved_duration_and_skip_offset_witness:
  "initialize (exampleBreak 0 0 (Num 30)) (Resolved exampleAds)
     = Some (extractMetadata exampleCreative)
   \<and> mdDuration (extractMetadata exampleCreative) = 20
   \<and> triggerDuration exampleCreative = 20
   \<and> triggerSkipOffset exampleCreative = Num 0
   \<and> mdDuration (extractMetadata (exampleCreative\<lparr>creativeDuration := Undefined\<rparr>)) = 30
   \<and> triggerDuration (exampleCreative\<lparr>creativeDuration := Undefined\<rparr>) = 15
   \<and> mdSkipOffset (extractMetadata (exampleCreative\<lparr>skipDelay := Null\<rparr>)) = 5
   \<and> triggerSkipOffset (exampleCreative\<lparr>skipDelay := Null\<rparr>) = Num 5"
proof -
  have declared: "creativeDuration exampleCreative = Num 20 \<and> (0 :: real) < 20"
    "skipDelay exampleCreative = Num 0"
    by (simp_all add: exampleCreative_def)
  have absent:
    "creativeDuration (exampleCreative\<lparr>creativeDuration := Undefined\<rparr>) = Undefined"
    "skipDelay (exampleCreative\<lparr>skipDelay := Null\<rparr>) = Null"
    by simp_all
  have chosen: "initialize (exampleBreak 0 0 (Num 30)) (Resolved exampleAds)
     = Some (extractMetadata exampleCreative)"
    by (simp add: initialize_def exampleBreak_def exampleAds_def hasCreatives_def
        getLinearCreative_def isPlayableLinear_def exampleCreative_def)
  from resolved_duration_and_skip_offset [of _ _ _ exampleCreative 20 0] declared
  have 1: "mdDuration (extractMetadata exampleCreative) = 20"
    "triggerDuration exampleCreative = 20" "triggerSkipOffset exampleCreative = Num 0"
    by blast+
  from resolved_duration_and_skip_offset
    [of _ _ _ "exampleCreative\<lparr>creativeDuration := Undefined\<rparr>"] absent(1)
  have 2: "mdDuration (extractMetadata (exampleCreative\<lparr>creativeDuration := Undefined\<rparr>)) = 30"
    "triggerDuration (exampleCreative\<lparr>creativeDuration := Undefined\<rparr>) = 15"
    by blast+
  from resolved_duration_and_skip_offset
    [of _ _ _ "exampleCreative\<lparr>skipDelay := Null\<rparr>"] absent(2)
  have 3: "mdSkipOffset (extractMetadata (exampleCreative\<lparr>skipDelay := Null\<rparr>)) = 5"
    "triggerSkipOffset (exampleCreative\<lparr>skipDelay := Null\<rparr>) = Num 5"
    by blast+
  from chosen 1 2 3 show ?thesis
    by simp
qed

text \<open>
  Against C9 as stated: for the example creative, which declares a skip delay of exactly
  0, \<open>AdTracker.initialize\<close> returns the skip offset 5; and for a creative that declares
  no duration the client-swap build uses 15 seconds, not 30.
\<close>

theorem resolved_skip_offset_counterexample:
  "skipDelay exampleCreative = Num 0
   \<and> map_option mdSkipOffset (initialize (exampleBreak 0 0 (Num 30)) (Resolved exampleAds))
        = Some 5
   \<and> triggerDuration (exampleCreative\<lparr>creativeDuration := Undefined\<rparr>) = 15"
  by (simp add: initialize_def exampleBreak_def exampleAds_def hasCreatives_def
      getLinearCreative_def isPlayableLinear_def exampleCreative_def extractMetadata_def
      triggerDuration_def DEFAULT_SKIP_OFFSET_def)


section \<open>The ordinal index and the generated id\<close>

lemma buildLoop_map_filter:
  "buildLoop vmap cd i acc =
     acc @ List.map_filter (\<lambda>k. makeAdBreak cd k (vmap ! k)) [i ..< length vmap]"
proof (induction vmap cd i acc rule: buildLoop.induct)
  case (1 vmap cd i acc)
  show ?case
  proof (cases "i < length vmap")
    case True
    then have upt: "[i ..< length vmap] = i # [Suc i ..< length vmap]"
      by (simp add: upt_conv_Cons)
    from True "1.IH" show ?thesis
      by (subst buildLoop.simps) (simp add: upt split: option.splits)
  next
    case False
    then show ?thesis
      by (subst buildLoop.simps) simp
  qed
qed

lemma makeAdBreak_Some:
  "makeAdBreak cd k br = Some b \<Longrightarrow>
     index b = k \<and> extractVastUrl br = Some (vastUrl b)
     \<and> breakId b = or_string (vmapBreakId br) (''break_'' @ showNat k)"
  by (auto simp: makeAdBreak_def Let_def split: option.splits)

lemma makeAdBreak_None:
  "makeAdBreak cd k br = None \<longleftrightarrow> extractVastUrl br = None"
  by (simp add: makeAdBreak_def Let_def split: option.splits)

lemma buildLoop_member:
  assumes "b \<in> set (buildLoop vmap cd 0 [])"
  shows "\<exists>k < length vmap. makeAdBreak cd k (vmap ! k) = Some b"
proof -
  from assms have "b \<in> set (List.map_filter (\<lambda>k. makeAdBreak cd k (vmap ! k)) [0 ..< length vmap])"
    by (simp add: buildLoop_map_filter)
  then show ?thesis
    by (auto simp: List.map_filter_def)
qed

lemma map_index_map_filter:
  "map index (List.map_filter (\<lambda>k. makeAdBreak cd k (vmap ! k)) ks) =
     filter (\<lambda>k. extractVastUrl (vmap ! k) \<noteq> None) ks"
proof (induction ks)
  case Nil
  then show ?case by simp
next
  case (Cons k ks)
  show ?case
  proof (cases "makeAdBreak cd k (vmap ! k)")
    case None
    with Cons makeAdBreak_None [of cd k "vmap ! k"] show ?thesis
      by simp
  next
    case (Some b)
    with makeAdBreak_Some [OF Some] makeAdBreak_None [of cd k "vmap ! k"] Cons show ?thesis
      by simp
  qed
qed

lemma buildLoop_indices:
  "map index (buildLoop vmap cd 0 []) =
     filter (\<lambda>k. extractVastUrl (vmap ! k) \<noteq> None) [0 ..< length vmap]"
  by (simp add: buildLoop_map_filter map_index_map_filter)

lemma sorted_buildAdBreakList:
  "sorted (map timeInSeconds (buildAdBreakList vmap cd))"
  by (simp add: buildAdBreakList_def)

text \<open>
  C8, as the code has it. The \<open>index\<close> of a descriptor is the loop counter: the position of
  its entry in the source document, entries that were discarded counted too. Listed in
  document order the kept descriptors carry exactly the document positions of the entries
  that have a locator, and sorting only reorders them. The \<open>breakId\<close> is the one of the
  source when that is a non-empty string and otherwise \<open>break_\<close> followed by that
  \<open>index\<close>. The client-swap build assigns the same \<open>index\<close> and \<open>breakId\<close>.
\<close>

theorem buildAdBreakList_index_is_document_position:
  "(b \<in> set (buildAdBreakList vmap cd) \<longrightarrow>
      index b < length vmap
      \<and> extractVastUrl (vmap ! index b) = Some (vastUrl b)
      \<and> breakId b = or_string (vmapBreakId (vmap ! index b)) (''break_'' @ showNat (index b))
      \<and> (vmapBreakId (vmap ! index b) = None \<longrightarrow> breakId b = ''break_'' @ showNat (index b)))
   \<and> map index (buildLoop vmap cd 0 []) =
        filter (\<lambda>k. extractVastUrl (vmap ! k) \<noteq> None) [0 ..< length vmap]
   \<and> set (buildAdBreakList vmap cd) = set (buildLoop vmap cd 0 [])
   \<and> length (buildAdBreakList vmap cd) = length (buildLoop vmap cd 0 [])
   \<and> map index (clientBuildAdBreakList vmap cd) = map index (buildAdBreakList vmap cd)
   \<and> map breakId (clientBuildAdBreakList vmap cd) = map breakId (buildAdBreakList vmap cd)"
proof (intro conjI impI)
  assume "b \<in> set (buildAdBreakList vmap cd)"
  then have "b \<in> set (buildLoop vmap cd 0 [])"
    by (simp add: buildAdBreakList_def)
  from buildLoop_member [OF this] obtain k
    where k: "k < length vmap" "makeAdBreak cd k (vmap ! k) = Some b"
    by blast
  from makeAdBreak_Some [OF k(2)] k(1)
  show "index b < length vmap"
    "extractVastUrl (vmap ! index b) = Some (vastUrl b)"
    "breakId b = or_string (vmapBreakId (vmap ! index b)) (''break_'' @ showNat (index b))"
    by simp_all
  then show "breakId b = ''break_'' @ showNat (index b)" if "vmapBreakId (vmap ! index b) = None"
    using that by simp
next
  show "map index (buildLoop vmap cd 0 []) =
        filter (\<lambda>k. extractVastUrl (vmap ! k) \<noteq> None) [0 ..< length vmap]"
    by (rule buildLoop_indices)
  show "set (buildAdBreakList vmap cd) = set (buildLoop vmap cd 0 [])"
    "length (buildAdBreakList vmap cd) = length (buildLoop vmap cd 0 [])"
    by (simp_all add: buildAdBreakList_def)
  show "map index (clientBuildAdBreakList vmap cd) = map index (buildAdBreakList vmap cd)"
    "map breakId (clientBuildAdBreakList vmap cd) = map breakId (buildAdBreakList vmap cd)"
    by (simp_all add: clientBuildAdBreakList_def)
qed


text \<open>
  A document whose first entry has no ad source and whose second entry is a mid-roll at
  five minutes: the one descriptor built carries the document position 1 and the id
  \<open>break_1\<close>.
\<close>

theorem buildAdBreakList_index_is_document_position_witness:
  "buildAdBreakList [discardedEntry, keptEntry ''00:05:00''] 596
     = [(exampleBreak 1 300 (Num 30))\<lparr>timeOffset := ''00:05:00''\<rparr>]
   \<and> index ((exampleBreak 1 300 (Num 30))\<lparr>timeOffset := ''00:05:00''\<rparr>) < 2
   \<and> extractVastUrl ([discardedEntry, keptEntry ''00:05:00''] ! 1)
        = Some (Str ''https://ads.example/vast'')
   \<and> breakId ((exampleBreak 1 300 (Num 30))\<lparr>timeOffset := ''00:05:00''\<rparr>) = ''break_1''"
proof -
  let ?vmap = "[discardedEntry, keptEntry ''00:05:00'']"
  let ?b = "(exampleBreak 1 300 (Num 30))\<lparr>timeOffset := ''00:05:00''\<rparr>"
  have built: "buildAdBreakList ?vmap 596 = [?b]"
    by code_simp
  then have member: "?b \<in> set (buildAdBreakList ?vmap 596)"
    by simp
  have noId: "vmapBreakId (?vmap ! index ?b) = None"
    by (simp add: keptEntry_def)
  have digits: "showNat 1 = ''1''"
    by code_simp
  from buildAdBreakList_index_is_document_position [of ?b ?vmap 596] member noId
  have "index ?b < length ?vmap"
    "extractVastUrl (?vmap ! index ?b) = Some (vastUrl ?b)"
    "breakId ?b = ''break_'' @ showNat (index ?b)"
    by blast+
  with built digits show ?thesis
    by (simp add: exampleBreak_def)
qed

text \<open>
  Against C8 as stated: in that document the descriptor built is the first and only kept
  entry, at position 0 among the kept entries, and it carries the index 1 and the id
  \<open>break_1\<close>: the discarded entry has advanced the ordinal.
\<close>

theorem discarded_entry_advances_index_counterexample:
  "extractVastUrl discardedEntry = None
   \<and> map index (buildAdBreakList [discardedEntry, keptEntry ''00:05:00''] 596) = [1]
   \<and> map breakId (buildAdBreakList [discardedEntry, keptEntry ''00:05:00''] 596) = [''break_1'']
   \<and> map index (clientBuildAdBreakList [discardedEntry, keptEntry ''00:05:00''] 596) = [1]"
  by code_simp


section \<open>The schedule as built\<close>

text \<open>
  The list that \<open>buildAdBreakList\<close> returns is sorted by \<open>timeInSeconds\<close> and every
  break in it has the default duration, so it meets what the detection windows ask of a
  list; and for a document in which every entry has a locator and the entries are in
  chronological order, the \<open>index\<close> of each break is its position in the list.
\<close>

lemma makeAdBreak_fields:
  "makeAdBreak cd k br = Some b \<Longrightarrow> duration b = Num 30 \<and> skipOffset b = Num 5
     \<and> timeInSeconds b =
          finitePart (parseTimeOffset (codeUnits (or_string (vmapTimeOffset br) ''start''))
            (Finite cd))"
  by (auto simp: makeAdBreak_def Let_def DEFAULT_AD_DURATION_def DEFAULT_SKIP_OFFSET_def
      split: option.splits)

lemma buildAdBreakList_durations:
  "b \<in> set (buildAdBreakList vmap cd) \<Longrightarrow> adDuration b = 30"
proof -
  assume "b \<in> set (buildAdBreakList vmap cd)"
  then have "b \<in> set (buildLoop vmap cd 0 [])"
    by (simp add: buildAdBreakList_def)
  from buildLoop_member [OF this] obtain k where "makeAdBreak cd k (vmap ! k) = Some b"
    by blast
  from makeAdBreak_fields [OF this] show ?thesis
    by simp
qed

lemma buildAdBreakList_meets_window_hypotheses:
  "sorted (map timeInSeconds (buildAdBreakList vmap cd))
   \<and> (\<forall>b \<in> set (buildAdBreakList vmap cd). 0 \<le> adDuration b)"
  using buildAdBreakList_durations [of _ vmap cd] by (auto simp: sorted_buildAdBreakList)

lemma map_filter_all_kept:
  "(\<forall>k \<in> set ks. f k \<noteq> None) \<Longrightarrow> List.map_filter f ks = map (\<lambda>k. the (f k)) ks"
  by (induction ks) auto

lemma buildAdBreakList_index_is_position:
  assumes kept: "\<forall>br \<in> set vmap. extractVastUrl br \<noteq> None"
    and ordered: "sorted (map (\<lambda>br. finitePart
        (parseTimeOffset (codeUnits (or_string (vmapTimeOffset br) ''start'')) (Finite cd))) vmap)"
  shows "map index (buildAdBreakList vmap cd) = [0 ..< length vmap]"
proof -
  let ?f = "\<lambda>k. makeAdBreak cd k (vmap ! k)"
  have some: "\<forall>k \<in> set [0 ..< length vmap]. ?f k \<noteq> None"
    using kept by (simp add: makeAdBreak_None)
  then have built: "buildLoop vmap cd 0 [] = map (\<lambda>k. the (?f k)) [0 ..< length vmap]"
    by (simp add: buildLoop_map_filter map_filter_all_kept)
  have time: "timeInSeconds (the (?f k)) = finitePart
      (parseTimeOffset (codeUnits (or_string (vmapTimeOffset (vmap ! k)) ''start'')) (Finite cd))"
    if "k < length vmap" for k
  proof -
    from some that have "?f k \<noteq> None" by simp
    then obtain b where b: "?f k = Some b" by blast
    from makeAdBreak_fields [OF b] b show ?thesis by simp
  qed
  have "map timeInSeconds (buildLoop vmap cd 0 []) =
      map (\<lambda>br. finitePart
        (parseTimeOffset (codeUnits (or_string (vmapTimeOffset br) ''start'')) (Finite cd))) vmap"
    unfolding built by (rule nth_equalityI) (simp_all add: time)
  with ordered have "sorted (map timeInSeconds (buildLoop vmap cd 0 []))"
    by simp
  then have "buildAdBreakList vmap cd = buildLoop vmap cd 0 []"
    by (simp add: buildAdBreakList_def sort_key_id_if_sorted)
  then show ?thesis
    using kept by (simp add: buildLoop_indices filter_id_conv)
qed

section \<open>Parsing a time offset\<close>

subsection \<open>White space, signs and digit runs\<close>










subsection \<open>Splitting at the colon\<close>






subsection \<open>The two number parsers\<close>








subsection \<open>The cases of parseTimeOffset\<close>







end
